theory Spec2Isabelle
  imports Main
begin

section \<open>Strings: the helpers of the Go standard library the package calls\<close>

text \<open>
  A Go string is modelled as a list of bytes (\<open>string\<close>).  Every character the package
  compares against is ASCII, and no byte of a multi-byte UTF-8 sequence equals an ASCII
  character, so iterating over bytes splits at the same places as iterating over runes.
\<close>

definition dquote :: char where "dquote = CHR 0x22"
definition squote :: char where "squote = CHR 0x27"
definition btick :: char where "btick = CHR 0x60"
definition tabc :: char where "tabc = CHR 0x09"
definition nlc :: char where "nlc = CHR 0x0A"
definition crc :: char where "crc = CHR 0x0D"

text \<open>\<open>strings.ToLower\<close>, on the ASCII letters (other bytes are kept).\<close>

definition toLowerC :: "char \<Rightarrow> char" where
  "toLowerC c = (let n = (of_char c :: nat) in if 65 \<le> n \<and> n \<le> 90 then char_of (n + 32) else c)"

definition ToLower :: "string \<Rightarrow> string" where
  "ToLower s = map toLowerC s"

text \<open>\<open>strings.Trim(s, cutset)\<close>: drops the bytes of the cutset from both ends.\<close>

definition Trim :: "string \<Rightarrow> string \<Rightarrow> string" where
  "Trim s cutset =
     rev (dropWhile (\<lambda>c. c \<in> set cutset) (rev (dropWhile (\<lambda>c. c \<in> set cutset) s)))"

definition ws_cutset :: string where
  "ws_cutset = [CHR '' '', tabc, nlc, crc]"

definition quote_ws_cutset :: string where
  "quote_ws_cutset = [dquote, squote, btick, CHR '' '', tabc, nlc, crc]"

definition key_cutset :: string where
  "key_cutset = [dquote, CHR 0x5C, btick, squote]"

text \<open>
  \<open>strings.FieldsFunc(path, f)\<close> with the stateful predicate of \<open>split\<close>: the
  predicate is called once per character, in order; it toggles \<open>quoted\<close> at each of the
  three quote characters, sets \<open>braces\<close> at \<open>[\<close> and clears it at \<open>]\<close>, and answers
  whether the character is a dot outside quotes and brackets.  A field is a maximal run
  of characters for which the answer is no; empty fields are not produced.
\<close>

fun FieldsFunc_split :: "bool \<Rightarrow> bool \<Rightarrow> string \<Rightarrow> string \<Rightarrow> string list" where
  "FieldsFunc_split quoted braces cur [] = (if cur = [] then [] else [cur])"
| "FieldsFunc_split quoted braces cur (r # rs) =
     (let quoted1 = (if r = dquote \<or> r = squote \<or> r = btick then \<not> quoted else quoted);
          braces1 = (if r = CHR ''['' then True else braces);
          braces2 = (if r = CHR '']'' then False else braces1)
      in if \<not> braces2 \<and> \<not> quoted1 \<and> r = CHR ''.''
         then (if cur = [] then [] else [cur]) @ FieldsFunc_split quoted1 braces2 [] rs
         else FieldsFunc_split quoted1 braces2 (cur @ [r]) rs)"

definition split :: "string \<Rightarrow> string list" where
  "split path = map (\<lambda>val. Trim val quote_ws_cutset) (FieldsFunc_split False False [] path)"

text \<open>
  The generic splitter \<open>Split(txt, sep)\<close>: five independent group flags; the cases of
  the \<open>switch\<close> are tried in the order of the source, the separator last.
\<close>

record split_state =
  inQuote :: bool
  inSingleQuote :: bool
  inBacktick :: bool
  inBracket :: bool
  inBrace :: bool

definition split_init :: split_state where
  "split_init = \<lparr>inQuote = False, inSingleQuote = False, inBacktick = False,
                  inBracket = False, inBrace = False\<rparr>"

definition unquoted :: "split_state \<Rightarrow> bool" where
  "unquoted st = (\<not> inQuote st \<and> \<not> inSingleQuote st \<and> \<not> inBacktick st)"

fun Split_loop :: "char \<Rightarrow> split_state \<Rightarrow> string \<Rightarrow> string \<Rightarrow> string list" where
  "Split_loop sep st cur [] = [cur]"
| "Split_loop sep st cur (r # rs) =
     (if r = dquote then
        Split_loop sep (if \<not> inSingleQuote st \<and> \<not> inBacktick st
                        then st\<lparr>inQuote := \<not> inQuote st\<rparr> else st) (cur @ [r]) rs
      else if r = squote then
        Split_loop sep (if \<not> inQuote st \<and> \<not> inBacktick st
                        then st\<lparr>inSingleQuote := \<not> inSingleQuote st\<rparr> else st) (cur @ [r]) rs
      else if r = btick then
        Split_loop sep (if \<not> inQuote st \<and> \<not> inSingleQuote st
                        then st\<lparr>inBacktick := \<not> inBacktick st\<rparr> else st) (cur @ [r]) rs
      else if r = CHR ''['' then
        Split_loop sep (if unquoted st then st\<lparr>inBracket := True\<rparr> else st) (cur @ [r]) rs
      else if r = CHR '']'' then
        Split_loop sep (if unquoted st then st\<lparr>inBracket := False\<rparr> else st) (cur @ [r]) rs
      else if r = CHR ''{'' then
        Split_loop sep (if unquoted st then st\<lparr>inBrace := True\<rparr> else st) (cur @ [r]) rs
      else if r = CHR ''}'' then
        Split_loop sep (if unquoted st then st\<lparr>inBrace := False\<rparr> else st) (cur @ [r]) rs
      else if r = sep then
        (if unquoted st \<and> \<not> inBracket st \<and> \<not> inBrace st
         then cur # Split_loop sep st [] rs
         else Split_loop sep st (cur @ [r]) rs)
      else Split_loop sep st (cur @ [r]) rs)"

definition Split :: "string \<Rightarrow> char \<Rightarrow> string list" where
  "Split txt sep = Split_loop sep split_init [] txt"

text \<open>\<open>strings.Split(s, sep)\<close> for a one-character separator: cuts at every occurrence.\<close>

fun strings_Split :: "string \<Rightarrow> char \<Rightarrow> string list" where
  "strings_Split [] sep = [[]]"
| "strings_Split (c # cs) sep =
     (if c = sep then [] # strings_Split cs sep
      else (case strings_Split cs sep of
              [] \<Rightarrow> [[c]]
            | p # ps \<Rightarrow> (c # p) # ps))"

text \<open>
  The regular expression \<open>(.*)\[(.*)\]\<close> of \<open>array\<close>, as \<open>FindStringSubmatch\<close>
  applies it: unanchored, leftmost match, both groups greedy, and \<open>.\<close> does not match a
  newline.  The match therefore lies in the first line that holds a \<open>[\<close> with a \<open>]\<close>
  after it, starts at the beginning of that line, and the first group runs up to the last
  such \<open>[\<close>, the second from there to the last \<open>]\<close> of the line.
\<close>

definition lastSplit :: "char \<Rightarrow> string \<Rightarrow> (string \<times> string) option" where
  "lastSplit c s =
     (case dropWhile (\<lambda>x. x \<noteq> c) (rev s) of
        [] \<Rightarrow> None
      | _ # pre \<Rightarrow> Some (rev pre, rev (takeWhile (\<lambda>x. x \<noteq> c) (rev s))))"

definition arrayLine :: "string \<Rightarrow> (string \<times> string) option" where
  "arrayLine line =
     (case lastSplit (CHR '']'') line of
        None \<Rightarrow> None
      | Some (pre, _) \<Rightarrow> lastSplit (CHR ''['') pre)"

fun firstMatch :: "string list \<Rightarrow> (string \<times> string) option" where
  "firstMatch [] = None"
| "firstMatch (l # ls) = (case arrayLine l of Some m \<Rightarrow> Some m | None \<Rightarrow> firstMatch ls)"

definition array_FindStringSubmatch :: "string \<Rightarrow> (string \<times> string) option" where
  "array_FindStringSubmatch fn = firstMatch (strings_Split fn nlc)"

section \<open>strconv and encoding/hex\<close>

datatype numerr = ErrSyntax | ErrRange

definition isDigit :: "char \<Rightarrow> bool" where
  "isDigit c = (let n = (of_char c :: nat) in 48 \<le> n \<and> n \<le> 57)"

definition digitVal :: "char \<Rightarrow> int" where
  "digitVal c = int (of_char c :: nat) - 48"

fun digitsAcc :: "int \<Rightarrow> string \<Rightarrow> int option" where
  "digitsAcc n [] = Some n"
| "digitsAcc n (c # cs) = (if isDigit c then digitsAcc (n * 10 + digitVal c) cs else None)"

definition digitsVal :: "string \<Rightarrow> int option" where
  "digitsVal s = (if s = [] then None else digitsAcc 0 s)"

text \<open>
  \<open>strconv.ParseInt(s, 10, bitSize)\<close>: an optional sign, then one or more decimal
  digits; a value outside the signed range of \<open>bitSize\<close> bits is a range error.
\<close>

definition ParseInt :: "string \<Rightarrow> nat \<Rightarrow> numerr + int" where
  "ParseInt s bitSize =
     (case s of
        [] \<Rightarrow> Inl ErrSyntax
      | c # cs \<Rightarrow>
          (let neg = (c = CHR ''-'');
               ds = (if c = CHR ''+'' \<or> c = CHR ''-'' then cs else s)
           in case digitsVal ds of
                None \<Rightarrow> Inl ErrSyntax
              | Some n \<Rightarrow>
                  (let i = (if neg then - n else n)
                   in if - (2 ^ (bitSize - 1)) \<le> i \<and> i < 2 ^ (bitSize - 1)
                      then Inr i else Inl ErrRange)))"

text \<open>\<open>strconv.ParseUint(s, 10, bitSize)\<close>: digits only, no sign.\<close>

definition ParseUint :: "string \<Rightarrow> nat \<Rightarrow> numerr + int" where
  "ParseUint s bitSize =
     (case digitsVal s of
        None \<Rightarrow> Inl ErrSyntax
      | Some n \<Rightarrow> (if n < 2 ^ bitSize then Inr n else Inl ErrRange))"

text \<open>\<open>strconv.Atoi\<close> is \<open>ParseInt(s, 10, 0)\<close> on a 64-bit platform.\<close>

definition Atoi :: "string \<Rightarrow> numerr + int" where
  "Atoi s = ParseInt s 64"

definition ParseBool :: "string \<Rightarrow> numerr + bool" where
  "ParseBool s =
     (if s \<in> set [''1'', ''t'', ''T'', ''TRUE'', ''true'', ''True''] then Inr True
      else if s \<in> set [''0'', ''f'', ''F'', ''FALSE'', ''false'', ''False''] then Inr False
      else Inl ErrSyntax)"

text \<open>
  \<open>hex.DecodeString\<close>: pairs of hexadecimal digits, most significant first; a character
  that is no hexadecimal digit is reported before an odd length is.
\<close>

datatype hexerr = InvalidByteError char | ErrLength

definition fromHexChar :: "char \<Rightarrow> nat option" where
  "fromHexChar c =
     (let n = (of_char c :: nat)
      in if 48 \<le> n \<and> n \<le> 57 then Some (n - 48)
         else if 97 \<le> n \<and> n \<le> 102 then Some (n - 87)
         else if 65 \<le> n \<and> n \<le> 70 then Some (n - 55)
         else None)"

fun hex_Decode :: "string \<Rightarrow> hexerr + nat list" where
  "hex_Decode [] = Inr []"
| "hex_Decode [p] = (case fromHexChar p of None \<Rightarrow> Inl (InvalidByteError p) | Some _ \<Rightarrow> Inl ErrLength)"
| "hex_Decode (p # q # rest) =
     (case fromHexChar p of
        None \<Rightarrow> Inl (InvalidByteError p)
      | Some a \<Rightarrow>
          (case fromHexChar q of
             None \<Rightarrow> Inl (InvalidByteError q)
           | Some b \<Rightarrow>
               (case hex_Decode rest of
                  Inl e \<Rightarrow> Inl e
                | Inr bs \<Rightarrow> Inr ((a * 16 + b) # bs))))"

definition HasPrefix :: "string \<Rightarrow> string \<Rightarrow> bool" where
  "HasPrefix s p = (take (length p) s = p)"

definition TrimPrefix :: "string \<Rightarrow> string \<Rightarrow> string" where
  "TrimPrefix s p = (if HasPrefix s p then drop (length p) s else s)"


section \<open>Types and values as the reflect package presents them\<close>

text \<open>
  The package inspects its arguments through \<open>reflect\<close>.  A value of the model carries
  its dynamic type, as a Go interface value does, and a type is a term describing its
  structure.  Predeclared types are the constants; a declared type \<open>type N U\<close> is
  \<open>TNamed N U\<close>.  Type identity (\<open>==\<close> on \<open>reflect.Type\<close>) is equality of these terms.
\<close>

datatype ikind = I0 | I8 | I16 | I32 | I64 | U0 | U8 | U16 | U32 | U64 | Uptr

datatype gtype =
    TBool
  | TInt ikind
  | TFloat32
  | TFloat64
  | TComplex64
  | TComplex128
  | TString
  | TPtr gtype
  | TSlice gtype
  | TArray nat gtype
  | TMap gtype gtype
  | TStruct "(string \<times> bool \<times> gtype) list"
  | TInterface "string list"
  | TNamed string gtype
  | TOther string

text \<open>
  A struct type lists its fields as (name, exported, type).  \<open>TInterface\<close> lists the
  method names of an interface type; \<open>TOther\<close> stands for the kinds the package has no
  case for (channels, functions, unsafe pointers).
\<close>

datatype kind =
    KInvalid | KBool | KInt ikind | KFloat32 | KFloat64 | KComplex64 | KComplex128
  | KString | KPointer | KSlice | KArray | KMap | KStruct | KInterface | KOther

fun underlying :: "gtype \<Rightarrow> gtype" where
  "underlying (TNamed n u) = underlying u"
| "underlying t = t"

fun kindOf :: "gtype \<Rightarrow> kind" where
  "kindOf TBool = KBool"
| "kindOf (TInt k) = KInt k"
| "kindOf TFloat32 = KFloat32"
| "kindOf TFloat64 = KFloat64"
| "kindOf TComplex64 = KComplex64"
| "kindOf TComplex128 = KComplex128"
| "kindOf TString = KString"
| "kindOf (TPtr t) = KPointer"
| "kindOf (TSlice t) = KSlice"
| "kindOf (TArray n t) = KArray"
| "kindOf (TMap k t) = KMap"
| "kindOf (TStruct fs) = KStruct"
| "kindOf (TInterface ms) = KInterface"
| "kindOf (TNamed n u) = kindOf u"
| "kindOf (TOther s) = KOther"

text \<open>\<open>Type.Elem()\<close>, \<open>Type.Key()\<close>, \<open>Type.Len()\<close> and the fields of a struct type.\<close>

fun elemT :: "gtype \<Rightarrow> gtype" where
  "elemT (TPtr t) = t"
| "elemT (TSlice t) = t"
| "elemT (TArray n t) = t"
| "elemT (TMap k t) = t"
| "elemT (TNamed n u) = elemT u"
| "elemT t = t"

fun keyT :: "gtype \<Rightarrow> gtype" where
  "keyT (TMap k t) = k"
| "keyT (TNamed n u) = keyT u"
| "keyT t = t"


fun structFields :: "gtype \<Rightarrow> (string \<times> bool \<times> gtype) list" where
  "structFields (TStruct fs) = fs"
| "structFields (TNamed n u) = structFields u"
| "structFields t = []"

fun methodsOf :: "gtype \<Rightarrow> string list" where
  "methodsOf (TInterface ms) = ms"
| "methodsOf (TNamed n u) = methodsOf u"
| "methodsOf t = []"

text \<open>
  Values.  \<open>VInvalid\<close> is the nil interface value (\<open>reflect.ValueOf(nil)\<close>, the zero
  \<open>reflect.Value\<close>).  A pointer owns its pointee (the references of the data model are
  single-owner), a nil pointer, slice or map is \<open>None\<close>.  A map is the list of its
  entries, in insertion order, with distinct keys.  \<open>VIface t d\<close> is a slot of interface
  type \<open>t\<close> holding the dynamic value \<open>d\<close> (\<open>VInvalid\<close> when the interface is nil).
  Floating-point and complex numbers are their IEEE bit patterns; the package never
  computes with them.
\<close>

datatype gval =
    VInvalid
  | VBool gtype bool
  | VInt gtype int
  | VFloat gtype nat
  | VComplex gtype nat nat
  | VString gtype string
  | VPtr gtype "gval option"
  | VSlice gtype "gval list option"
  | VArray gtype "gval list"
  | VMap gtype "(gval \<times> gval) list option"
  | VStruct gtype "gval list"
  | VIface gtype gval
  | VOther gtype

fun typeOf :: "gval \<Rightarrow> gtype option" where
  "typeOf VInvalid = None"
| "typeOf (VBool t b) = Some t"
| "typeOf (VInt t i) = Some t"
| "typeOf (VFloat t x) = Some t"
| "typeOf (VComplex t x y) = Some t"
| "typeOf (VString t s) = Some t"
| "typeOf (VPtr t p) = Some t"
| "typeOf (VSlice t xs) = Some t"
| "typeOf (VArray t xs) = Some t"
| "typeOf (VMap t m) = Some t"
| "typeOf (VStruct t fs) = Some t"
| "typeOf (VIface t d) = Some t"
| "typeOf (VOther t) = Some t"

definition kindV :: "gval \<Rightarrow> kind" where
  "kindV v = (case typeOf v of None \<Rightarrow> KInvalid | Some t \<Rightarrow> kindOf t)"

text \<open>The same value at another type (a conversion between types of one structure).\<close>

fun retype :: "gval \<Rightarrow> gtype \<Rightarrow> gval" where
  "retype VInvalid t = VInvalid"
| "retype (VBool _ b) t = VBool t b"
| "retype (VInt _ i) t = VInt t i"
| "retype (VFloat _ x) t = VFloat t x"
| "retype (VComplex _ x y) t = VComplex t x y"
| "retype (VString _ s) t = VString t s"
| "retype (VPtr _ p) t = VPtr t p"
| "retype (VSlice _ xs) t = VSlice t xs"
| "retype (VArray _ xs) t = VArray t xs"
| "retype (VMap _ m) t = VMap t m"
| "retype (VStruct _ fs) t = VStruct t fs"
| "retype (VIface _ d) t = VIface t d"
| "retype (VOther _) t = VOther t"

text \<open>\<open>Value.Interface()\<close>: the dynamic value of an interface slot, the value itself otherwise.\<close>

fun Interface :: "gval \<Rightarrow> gval" where
  "Interface (VIface t d) = d"
| "Interface v = v"

text \<open>\<open>reflect.Zero(t)\<close>, which is also \<open>reflect.New(t).Elem()\<close>.\<close>

fun Zero :: "gtype \<Rightarrow> gval" where
  "Zero TBool = VBool TBool False"
| "Zero (TInt k) = VInt (TInt k) 0"
| "Zero TFloat32 = VFloat TFloat32 0"
| "Zero TFloat64 = VFloat TFloat64 0"
| "Zero TComplex64 = VComplex TComplex64 0 0"
| "Zero TComplex128 = VComplex TComplex128 0 0"
| "Zero TString = VString TString []"
| "Zero (TPtr t) = VPtr (TPtr t) None"
| "Zero (TSlice t) = VSlice (TSlice t) None"
| "Zero (TArray n t) = VArray (TArray n t) (replicate n (Zero t))"
| "Zero (TMap k t) = VMap (TMap k t) None"
| "Zero (TStruct fs) = VStruct (TStruct fs) (map (\<lambda>f. Zero (snd (snd f))) fs)"
| "Zero (TInterface ms) = VIface (TInterface ms) VInvalid"
| "Zero (TNamed n u) = retype (Zero u) (TNamed n u)"
| "Zero (TOther s) = VOther (TOther s)"

text \<open>
  The helpers of \<open>github.com/zauberhaus/reflect_utils\<close> the package calls.  That
  module is a dependency, not part of the repository; they are modelled by what their
  callers and the tests rely on: \<open>IsStruct\<close> looks through pointers, \<open>IsNil\<close> holds of the
  nil interface and of nil pointers, slices and maps, but not of a field of interface
  type, nil or not; \<open>CopyToHeap\<close> returns a pointer to a copy and \<open>FromPointer\<close> the
  pointee.
\<close>

fun IsStruct :: "gval \<Rightarrow> bool" where
  "IsStruct (VPtr t (Some x)) = IsStruct x"
| "IsStruct (VStruct t fs) = True"
| "IsStruct v = False"

definition IsPointer :: "gval \<Rightarrow> bool" where
  "IsPointer v = (kindV v = KPointer)"

fun IsNil :: "gval \<Rightarrow> bool" where
  "IsNil VInvalid = True"
| "IsNil (VPtr t None) = True"
| "IsNil (VSlice t None) = True"
| "IsNil (VMap t None) = True"
| "IsNil v = False"

definition CopyToHeap :: "gval \<Rightarrow> gval" where
  "CopyToHeap v = (case typeOf v of None \<Rightarrow> VInvalid | Some t \<Rightarrow> VPtr (TPtr t) (Some v))"

fun FromPointer :: "gval \<Rightarrow> gval" where
  "FromPointer (VPtr t (Some x)) = x"
| "FromPointer (VPtr t None) = VInvalid"
| "FromPointer v = v"


section \<open>Errors, panics and the external collaborators\<close>

text \<open>
  An \<open>error\<close> is a value a function returns.  The messages of \<open>errors.New\<close> and of
  \<open>fmt.Errorf\<close> without arguments are kept as text (\<open>Errorf\<close>); a formatted message keeps
  its arguments.  \<open>ValueError\<close> is \<open>*reflect.ValueError\<close> and \<open>RuntimeError\<close> a
  \<open>runtime.Error\<close>: both are error values that reach the program only as the value of
  a panic.  \<open>External\<close> wraps the error of a collaborator outside the repository.
\<close>

datatype error =
    NotFoundError string
  | ErrNotMap
  | Errorf string
  | NotExported string
  | DoesntImplement gval gtype gtype
  | InvalidDataType gtype gtype
  | NotAddressable
  | NumError string string numerr
  | HexError hexerr
  | CountMismatch nat nat
  | Unsupported gtype
  | ValueError string
  | RuntimeError string
  | External string
  | HookError string

definition msg_isnt :: "string \<Rightarrow> string \<Rightarrow> string" where
  "msg_isnt a b = a @ ''isn'' @ [squote] @ ''t '' @ b"

definition ErrArrayNotExpandable :: error where
  "ErrArrayNotExpandable = Errorf (msg_isnt ''array '' ''expandable'')"

definition ErrNotAStruct :: error where
  "ErrNotAStruct = Errorf (msg_isnt ''field '' ''a struct'')"

text \<open>
  A panic carries a value: an error value (\<open>PanicError\<close>) or any other value, in
  \<open>reflect\<close> a string (\<open>PanicValue\<close>).  An \<open>outcome\<close> is what a call does: it returns, or
  it panics.
\<close>

datatype fault = PanicError error | PanicValue string

datatype 'a outcome = Done 'a | Panic fault

type_synonym result = "gval \<times> error option"

definition ok :: "gval \<Rightarrow> result outcome" where
  "ok v = Done (v, None)"

definition fail :: "error \<Rightarrow> result outcome" where
  "fail e = Done (VInvalid, Some e)"

text \<open>
  The collaborators outside the repository, as parameters of the model:
  the method sets of the program's types (\<open>implements\<close>, and the \<open>UnmarshalText\<close> and
  \<open>UnmarshalYAML\<close> methods of the pointer to a type, applied to a fresh zero instance and
  returning the instance afterwards), the default-value initializer
  (\<open>NewWithDefaultsOf\<close>), the parsers of \<open>time\<close>, \<open>net\<close> and \<open>strconv\<close> for durations,
  hardware addresses, networks, floating-point and complex numbers, the JSON decoding
  of a record (\<open>utils.NewOf\<close>, \<open>defaults.Set\<close> and \<open>json.Unmarshal\<close> in one), and the
  conversions of \<open>reflect\<close> that compute with floating-point numbers or re-encode text
  (\<open>extConvert\<close>).
\<close>

record env =
  implements :: "gtype \<Rightarrow> gtype \<Rightarrow> bool"
  UnmarshalText :: "gtype \<Rightarrow> (string \<Rightarrow> gval \<times> string option) option"
  UnmarshalYAML :: "gtype \<Rightarrow> (string \<Rightarrow> gval \<times> string option) option"
  NewWithDefaultsOf :: "gtype \<Rightarrow> gval \<times> string option"
  ParseDuration :: "string \<Rightarrow> int \<times> string option"
  ParseMAC :: "string \<Rightarrow> gval \<times> string option"
  ParseCIDR :: "string \<Rightarrow> gval \<times> string option"
  ParseFloat :: "string \<Rightarrow> nat \<Rightarrow> nat \<times> numerr option"
  ParseComplex :: "string \<Rightarrow> nat \<Rightarrow> (nat \<times> nat) \<times> numerr option"
  jsonStruct :: "gtype \<Rightarrow> string \<Rightarrow> gval \<times> string option"
  extConvert :: "gval \<Rightarrow> gtype \<Rightarrow> gval option"

definition external :: "gval \<times> string option \<Rightarrow> result" where
  "external r = (case r of (v, None) \<Rightarrow> (v, None) | (v, Some e) \<Rightarrow> (VInvalid, Some (External e)))"

section \<open>Assignability and conversion in reflect\<close>

text \<open>
  \<open>Type.Implements\<close>: every type implements the empty interface; otherwise the method
  sets decide.
\<close>

definition Implements :: "env \<Rightarrow> gtype \<Rightarrow> gtype \<Rightarrow> bool" where
  "Implements E t u = (kindOf u = KInterface \<and> (methodsOf u = [] \<or> implements E t u))"

fun hasName :: "gtype \<Rightarrow> bool" where
  "hasName (TPtr t) = False"
| "hasName (TSlice t) = False"
| "hasName (TArray n t) = False"
| "hasName (TMap k t) = False"
| "hasName (TStruct fs) = False"
| "hasName (TInterface ms) = False"
| "hasName t = True"

text \<open>
  Assignability, as \<open>Value.Set\<close>, \<open>Value.SetMapIndex\<close>, \<open>Value.MapIndex\<close> and
  \<open>reflect.Append\<close> check it: identical types, or identical underlying types of which
  one has no name, or an interface type the value's type implements.
\<close>

definition assignable :: "env \<Rightarrow> gtype \<Rightarrow> gtype \<Rightarrow> bool" where
  "assignable E src dst =
     (src = dst
      \<or> (underlying src = underlying dst \<and> \<not> (hasName src \<and> hasName dst))
      \<or> Implements E src dst)"

text \<open>
  \<open>Value.assignTo\<close>: the value as stored in a slot of type \<open>dst\<close>.  The zero
  \<open>reflect.Value\<close> panics with a \<open>*reflect.ValueError\<close>; a value that is not
  assignable panics with a string.
\<close>

definition assignTo :: "env \<Rightarrow> gval \<Rightarrow> gtype \<Rightarrow> gval outcome" where
  "assignTo E x dst =
     (case typeOf x of
        None \<Rightarrow> Panic (PanicError (ValueError ''reflect: call on zero Value''))
      | Some src \<Rightarrow>
          if assignable E src dst
          then Done (if kindOf dst = KInterface then VIface dst (Interface x) else retype x dst)
          else Panic (PanicValue ''reflect: value is not assignable to type''))"

fun isIntKind :: "kind \<Rightarrow> bool" where
  "isIntKind (KInt k) = True"
| "isIntKind k = False"

fun ikindOf :: "gtype \<Rightarrow> ikind" where
  "ikindOf (TInt k) = k"
| "ikindOf (TNamed n u) = ikindOf u"
| "ikindOf t = I0"

fun bits :: "ikind \<Rightarrow> nat" where
  "bits I8 = 8" | "bits I16 = 16" | "bits I32 = 32" | "bits I64 = 64" | "bits I0 = 64"
| "bits U8 = 8" | "bits U16 = 16" | "bits U32 = 32" | "bits U64 = 64" | "bits U0 = 64"
| "bits Uptr = 64"

fun isSigned :: "ikind \<Rightarrow> bool" where
  "isSigned I0 = True" | "isSigned I8 = True" | "isSigned I16 = True"
| "isSigned I32 = True" | "isSigned I64 = True" | "isSigned k = False"

text \<open>Conversion between integer types wraps around at the width of the target.\<close>

definition wrapInt :: "ikind \<Rightarrow> int \<Rightarrow> int" where
  "wrapInt k i =
     (if isSigned k then (i + 2 ^ (bits k - 1)) mod 2 ^ bits k - 2 ^ (bits k - 1)
      else i mod 2 ^ bits k)"

fun intOf :: "gval \<Rightarrow> int" where
  "intOf (VInt t i) = i"
| "intOf v = 0"

fun strOf :: "gval \<Rightarrow> string" where
  "strOf (VString t s) = s"
| "strOf v = []"

text \<open>
  \<open>Value.CanConvert\<close> and \<open>Value.Convert\<close>: between integer kinds, between types of
  identical underlying type, to an interface the type implements; every other
  conversion of \<open>reflect\<close> is \<open>extConvert\<close>.
\<close>

definition convertV :: "env \<Rightarrow> gval \<Rightarrow> gtype \<Rightarrow> gval option" where
  "convertV E v t =
     (case typeOf v of
        None \<Rightarrow> None
      | Some src \<Rightarrow>
          if isIntKind (kindOf src) \<and> isIntKind (kindOf t)
          then Some (VInt t (wrapInt (ikindOf t) (intOf v)))
          else if underlying src = underlying t then Some (retype v t)
          else if Implements E src t then Some (VIface t (Interface v))
          else extConvert E v t)"

definition CanConvert :: "env \<Rightarrow> gval \<Rightarrow> gtype \<Rightarrow> bool" where
  "CanConvert E v t = (convertV E v t \<noteq> None)"

definition Convert :: "env \<Rightarrow> gval \<Rightarrow> gtype \<Rightarrow> gval" where
  "Convert E v t = (case convertV E v t of Some x \<Rightarrow> x | None \<Rightarrow> v)"


section \<open>The type-directed parser\<close>

text \<open>
  A hook pairs a target type with a conversion function (\<open>ParseFn\<close> is the field \<open>Parse\<close>
  of the source, which returns a value and an error).
\<close>

record ParserHook =
  To :: gtype
  ParseFn :: "string \<Rightarrow> result"

definition NewParserHook :: "gtype \<Rightarrow> (string \<Rightarrow> result) \<Rightarrow> ParserHook" where
  "NewParserHook to f = \<lparr>To = to, ParseFn = f\<rparr>"

text \<open>The loop over the hooks: the first hook whose target type is the requested type.\<close>

fun hookFor :: "gtype \<Rightarrow> ParserHook list \<Rightarrow> ParserHook option" where
  "hookFor t [] = None"
| "hookFor t (hook # hooks) = (if To hook = t then Some hook else hookFor t hooks)"

definition durationT :: gtype where
  "durationT = TNamed ''time.Duration'' (TInt I64)"

definition bytesT :: gtype where
  "bytesT = TSlice (TInt U8)"

definition hardwareAddrT :: gtype where
  "hardwareAddrT = TNamed ''net.HardwareAddr'' bytesT"

definition ipNetT :: gtype where
  "ipNetT = TNamed ''net.IPNet''
     (TStruct [(''IP'', True, TNamed ''net.IP'' bytesT), (''Mask'', True, TNamed ''net.IPMask'' bytesT)])"

definition byteV :: "nat \<Rightarrow> gval" where
  "byteV b = VInt (TInt U8) (int b)"

definition bytesV :: "nat list \<Rightarrow> gval" where
  "bytesV bs = VSlice bytesT (Some (map byteV bs))"

text \<open>The function \<open>convert\<close> of the source.\<close>

definition convert :: "env \<Rightarrow> gval \<Rightarrow> gtype \<Rightarrow> bool \<Rightarrow> result outcome" where
  "convert E v t isPointer =
     (if Some t = typeOf v
      then ok (if isPointer then CopyToHeap v else v)
      else (let vt = (if CanConvert E v t then Convert E v t else v)
            in ok (if isPointer then CopyToHeap (Interface vt) else Interface vt)))"

text \<open>The first \<open>switch\<close>: a text target and a pointer-to-text target.\<close>

definition parseText :: "string \<Rightarrow> gtype \<Rightarrow> result outcome option" where
  "parseText txt t =
     (if t = TString then Some (ok (VString TString txt))
      else if t = TPtr TString then Some (ok (VPtr (TPtr TString) (Some (VString TString txt))))
      else None)"

text \<open>The custom-unmarshal capabilities, text first, of the pointer to the target.\<close>

definition runUnmarshal :: "(string \<Rightarrow> gval \<times> string option) \<Rightarrow> string \<Rightarrow> (gval \<Rightarrow> gval) \<Rightarrow> result outcome" where
  "runUnmarshal u txt wrap =
     (case u txt of
        (v, Some err) \<Rightarrow> fail (External err)
      | (v, None) \<Rightarrow> ok (wrap v))"

definition parseUnmarshal :: "env \<Rightarrow> string \<Rightarrow> gtype \<Rightarrow> result outcome option" where
  "parseUnmarshal E txt t =
     (if kindOf t = KPointer then
        (case UnmarshalText E (elemT t) of
           Some u \<Rightarrow> Some (runUnmarshal u txt (\<lambda>v. VPtr t (Some v)))
         | None \<Rightarrow>
             (case UnmarshalYAML E (elemT t) of
                Some u \<Rightarrow> Some (runUnmarshal u txt (\<lambda>v. VPtr t (Some v)))
              | None \<Rightarrow> None))
      else
        (case UnmarshalText E t of
           Some u \<Rightarrow> Some (runUnmarshal u txt (\<lambda>v. v))
         | None \<Rightarrow>
             (case UnmarshalYAML E t of
                Some u \<Rightarrow> Some (runUnmarshal u txt (\<lambda>v. v))
              | None \<Rightarrow> None)))"

text \<open>The second \<open>switch\<close>: durations, hardware addresses and networks.\<close>

definition parseSpecial :: "env \<Rightarrow> string \<Rightarrow> gtype \<Rightarrow> bool \<Rightarrow> result outcome option" where
  "parseSpecial E txt t isPointer =
     (if t = durationT then
        Some (case ParseDuration E txt of
                (d, Some err) \<Rightarrow> fail (External err)
              | (d, None) \<Rightarrow>
                  ok (if isPointer then VPtr (TPtr durationT) (Some (VInt durationT d))
                      else VInt durationT d))
      else if t = hardwareAddrT then
        Some (case ParseMAC E txt of
                (v, Some err) \<Rightarrow> fail (External err)
              | (v, None) \<Rightarrow>
                  ok (if isPointer then VPtr (TPtr hardwareAddrT) (Some v)
                      else if \<not> IsNil v then v
                      else VSlice hardwareAddrT (Some [])))
      else if t = ipNetT then
        Some (case ParseCIDR E txt of
                (v, Some err) \<Rightarrow> fail (External err)
              | (v, None) \<Rightarrow>
                  ok (if isPointer then v
                      else if \<not> IsNil v then FromPointer v
                      else Zero ipNetT))
      else None)"

text \<open>The scalar cases of the \<open>switch\<close> on the kind.\<close>

definition parseSigned :: "env \<Rightarrow> string \<Rightarrow> gtype \<Rightarrow> bool \<Rightarrow> nat \<Rightarrow> result outcome" where
  "parseSigned E txt t isPointer bitSize =
     (case ParseInt txt bitSize of
        Inl e \<Rightarrow> fail (NumError ''ParseInt'' txt e)
      | Inr v \<Rightarrow> convert E (VInt (TInt I64) v) t isPointer)"

definition parseUnsigned :: "env \<Rightarrow> string \<Rightarrow> gtype \<Rightarrow> bool \<Rightarrow> nat \<Rightarrow> result outcome" where
  "parseUnsigned E txt t isPointer bitSize =
     (case ParseUint txt bitSize of
        Inl e \<Rightarrow> fail (NumError ''ParseUint'' txt e)
      | Inr v \<Rightarrow> convert E (VInt (TInt U64) v) t isPointer)"

definition parseFloating :: "env \<Rightarrow> string \<Rightarrow> gtype \<Rightarrow> bool \<Rightarrow> nat \<Rightarrow> result outcome" where
  "parseFloating E txt t isPointer bitSize =
     (case ParseFloat E txt bitSize of
        (x, Some e) \<Rightarrow> fail (NumError ''ParseFloat'' txt e)
      | (x, None) \<Rightarrow> convert E (VFloat TFloat64 x) t isPointer)"

definition parseCplx :: "env \<Rightarrow> string \<Rightarrow> gtype \<Rightarrow> bool \<Rightarrow> nat \<Rightarrow> result outcome" where
  "parseCplx E txt t isPointer bitSize =
     (case ParseComplex E txt bitSize of
        (x, Some e) \<Rightarrow> fail (NumError ''ParseComplex'' txt e)
      | ((re, im), None) \<Rightarrow> convert E (VComplex TComplex128 re im) t isPointer)"

definition parseScalar :: "env \<Rightarrow> string \<Rightarrow> gtype \<Rightarrow> bool \<Rightarrow> result outcome option" where
  "parseScalar E txt t isPointer =
     (case kindOf t of
        KString \<Rightarrow>
          Some (let val = (if CanConvert E (VString TString txt) t
                           then Convert E (VString TString txt) t else VString TString txt)
                in ok (if isPointer then CopyToHeap (Interface val) else Interface val))
      | KBool \<Rightarrow>
          Some (case ParseBool txt of
                  Inl e \<Rightarrow> fail (NumError ''ParseBool'' txt e)
                | Inr b \<Rightarrow> convert E (VBool TBool b) t isPointer)
      | KInt I8 \<Rightarrow> Some (parseSigned E txt t isPointer 8)
      | KInt I16 \<Rightarrow> Some (parseSigned E txt t isPointer 16)
      | KInt I32 \<Rightarrow> Some (parseSigned E txt t isPointer 32)
      | KInt I64 \<Rightarrow> Some (parseSigned E txt t isPointer 64)
      | KInt I0 \<Rightarrow> Some (parseSigned E txt t isPointer 64)
      | KInt U0 \<Rightarrow> Some (parseUnsigned E txt t isPointer 64)
      | KInt U8 \<Rightarrow> Some (parseUnsigned E txt t isPointer 8)
      | KInt U16 \<Rightarrow> Some (parseUnsigned E txt t isPointer 16)
      | KInt U32 \<Rightarrow> Some (parseUnsigned E txt t isPointer 32)
      | KInt U64 \<Rightarrow> Some (parseUnsigned E txt t isPointer 64)
      | KFloat64 \<Rightarrow> Some (parseFloating E txt t isPointer 64)
      | KFloat32 \<Rightarrow> Some (parseFloating E txt t isPointer 32)
      | KComplex64 \<Rightarrow> Some (parseCplx E txt t isPointer 64)
      | KComplex128 \<Rightarrow> Some (parseCplx E txt t isPointer 128)
      | _ \<Rightarrow> None)"

text \<open>
  Maps.  Go compares keys with \<open>==\<close>; the model compares them structurally, except
  that a non-nil pointer the parser has just allocated equals no key of the map.
\<close>

fun freshKey :: "gval \<Rightarrow> bool" where
  "freshKey (VPtr t (Some x)) = True"
| "freshKey k = False"

fun entryOf :: "gval \<Rightarrow> (gval \<times> gval) list \<Rightarrow> gval option" where
  "entryOf k [] = None"
| "entryOf k ((k1, v1) # es) = (if k1 = k then Some v1 else entryOf k es)"

definition mapLookup :: "gval \<Rightarrow> (gval \<times> gval) list \<Rightarrow> gval option" where
  "mapLookup k es = (if freshKey k then None else entryOf k es)"

fun putEntry :: "gval \<Rightarrow> gval \<Rightarrow> (gval \<times> gval) list \<Rightarrow> (gval \<times> gval) list" where
  "putEntry k v [] = [(k, v)]"
| "putEntry k v ((k1, v1) # es) = (if k1 = k then (k1, v) # es else (k1, v1) # putEntry k v es)"

definition mapStore :: "gval \<Rightarrow> gval \<Rightarrow> (gval \<times> gval) list \<Rightarrow> (gval \<times> gval) list" where
  "mapStore k v es = (if freshKey k then es @ [(k, v)] else putEntry k v es)"

definition mapDelete :: "gval \<Rightarrow> (gval \<times> gval) list \<Rightarrow> (gval \<times> gval) list" where
  "mapDelete k es = (if freshKey k then es else filter (\<lambda>e. fst e \<noteq> k) es)"

text \<open>
  \<open>Value.SetMapIndex(k, v)\<close> on the entries of a map of type \<open>map[kt]vt\<close>: the key is
  checked first, the zero \<open>reflect.Value\<close> as \<open>v\<close> deletes the entry.
\<close>

definition SetMapIndex ::
  "env \<Rightarrow> gtype \<Rightarrow> gtype \<Rightarrow> gval \<Rightarrow> gval \<Rightarrow> (gval \<times> gval) list \<Rightarrow> (gval \<times> gval) list outcome" where
  "SetMapIndex E kt vt k v es =
     (case assignTo E k kt of
        Panic f \<Rightarrow> Panic f
      | Done k1 \<Rightarrow>
          if v = VInvalid then Done (mapDelete k1 es)
          else (case assignTo E v vt of
                  Panic f \<Rightarrow> Panic f
                | Done v1 \<Rightarrow> Done (mapStore k1 v1 es)))"

text \<open>The loops of the composite cases; \<open>P\<close> parses one piece into the element type.\<close>

fun sliceLoop ::
  "env \<Rightarrow> (string \<Rightarrow> result outcome) \<Rightarrow> gtype \<Rightarrow> gval list \<Rightarrow> string list
     \<Rightarrow> (gval list \<times> error option) outcome" where
  "sliceLoop E P e s [] = Done (s, None)"
| "sliceLoop E P e s (p # parts) =
     (case P p of
        Panic f \<Rightarrow> Panic f
      | Done (v, Some err) \<Rightarrow> Done ([], Some err)
      | Done (v, None) \<Rightarrow>
          (case assignTo E v e of
             Panic f \<Rightarrow> Panic f
           | Done x \<Rightarrow> sliceLoop E P e (s @ [x]) parts))"

fun arrayLoop ::
  "env \<Rightarrow> (string \<Rightarrow> result outcome) \<Rightarrow> gtype \<Rightarrow> nat \<Rightarrow> gval list \<Rightarrow> string list
     \<Rightarrow> (gval list \<times> error option) outcome" where
  "arrayLoop E P e i s [] = Done (s, None)"
| "arrayLoop E P e i s (p # parts) =
     (case P p of
        Panic f \<Rightarrow> Panic f
      | Done (v, Some err) \<Rightarrow> Done ([], Some err)
      | Done (v, None) \<Rightarrow>
          (case assignTo E v e of
             Panic f \<Rightarrow> Panic f
           | Done x \<Rightarrow> arrayLoop E P e (Suc i) (s[i := x]) parts))"

fun mapLoop ::
  "env \<Rightarrow> (string \<Rightarrow> result outcome) \<Rightarrow> (string \<Rightarrow> result outcome) \<Rightarrow> gtype \<Rightarrow> gtype
     \<Rightarrow> (gval \<times> gval) list \<Rightarrow> string list \<Rightarrow> ((gval \<times> gval) list \<times> error option) outcome" where
  "mapLoop E Pk Pv kt vt s [] = Done (s, None)"
| "mapLoop E Pk Pv kt vt s (p # parts) =
     (case strings_Split p (CHR ''='') of
        [kv0, kv1] \<Rightarrow>
          (case Pk kv0 of
             Panic f \<Rightarrow> Panic f
           | Done (k, Some err) \<Rightarrow> Done ([], Some err)
           | Done (k, None) \<Rightarrow>
               (case Pv kv1 of
                  Panic f \<Rightarrow> Panic f
                | Done (v, Some err) \<Rightarrow> Done ([], Some err)
                | Done (v, None) \<Rightarrow>
                    (case SetMapIndex E kt vt k v s of
                       Panic f \<Rightarrow> Panic f
                     | Done s1 \<Rightarrow> mapLoop E Pk Pv kt vt s1 parts)))
      | _ \<Rightarrow> mapLoop E Pk Pv kt vt s parts)"

fun elemsOf :: "gval \<Rightarrow> gval list" where
  "elemsOf (VArray t xs) = xs"
| "elemsOf (VSlice t (Some xs)) = xs"
| "elemsOf v = []"

definition parseSlice ::
  "env \<Rightarrow> (string \<Rightarrow> result outcome) \<Rightarrow> string \<Rightarrow> gtype \<Rightarrow> bool \<Rightarrow> result outcome" where
  "parseSlice E P txt t isPointer =
     (let e = elemT t in
      if kindOf e = KInt U8 \<and> HasPrefix txt ''0x'' then
        (case hex_Decode (TrimPrefix txt ''0x'') of
           Inl err \<Rightarrow> fail (HexError err)
         | Inr data \<Rightarrow> ok (if isPointer then VPtr (TPtr bytesT) (Some (bytesV data)) else bytesV data))
      else if txt = [] then
        ok (if isPointer then CopyToHeap (VSlice t (Some [])) else VSlice t (Some []))
      else
        (case sliceLoop E P e [] (Split txt (CHR '','')) of
           Panic f \<Rightarrow> Panic f
         | Done (s, Some err) \<Rightarrow> fail err
         | Done (s, None) \<Rightarrow> convert E (VSlice t (Some s)) t isPointer))"

text \<open>
  \<open>reflect.Copy\<close> into the zero array: it panics unless the element types are
  identical, and copies as many elements as both hold.
\<close>

definition parseArray ::
  "env \<Rightarrow> (string \<Rightarrow> result outcome) \<Rightarrow> string \<Rightarrow> gtype \<Rightarrow> bool \<Rightarrow> result outcome" where
  "parseArray E P txt t isPointer =
     (let e = elemT t; zs = elemsOf (Zero t) in
      if kindOf e = KInt U8 \<and> HasPrefix txt ''0x'' then
        (case hex_Decode (TrimPrefix txt ''0x'') of
           Inl err \<Rightarrow> fail (HexError err)
         | Inr data \<Rightarrow>
             if e \<noteq> TInt U8 then Panic (PanicValue ''reflect.Copy: types do not match'')
             else (let s = VArray t (take (length zs) (map byteV data) @ drop (length data) zs)
                   in ok (if isPointer then CopyToHeap s else s)))
      else if txt = [] then
        ok (if isPointer then CopyToHeap (Zero t) else Zero t)
      else
        (let parts = Split txt (CHR '','') in
         if length parts \<noteq> length zs then fail (CountMismatch (length zs) (length parts))
         else (case arrayLoop E P e 0 zs parts of
                 Panic f \<Rightarrow> Panic f
               | Done (s, Some err) \<Rightarrow> fail err
               | Done (s, None) \<Rightarrow> convert E (VArray t s) t isPointer)))"

definition parseMap ::
  "env \<Rightarrow> (string \<Rightarrow> result outcome) \<Rightarrow> (string \<Rightarrow> result outcome) \<Rightarrow> string \<Rightarrow> gtype \<Rightarrow> bool
     \<Rightarrow> result outcome" where
  "parseMap E Pk Pv txt t isPointer =
     (case mapLoop E Pk Pv (keyT t) (elemT t) [] (Split txt (CHR '','')) of
        Panic f \<Rightarrow> Panic f
      | Done (s, Some err) \<Rightarrow> fail err
      | Done (s, None) \<Rightarrow> convert E (VMap t (Some s)) t isPointer)"

definition parseStruct :: "env \<Rightarrow> string \<Rightarrow> gtype \<Rightarrow> bool \<Rightarrow> result outcome" where
  "parseStruct E txt t isPointer =
     (case jsonStruct E t txt of
        (v, Some err) \<Rightarrow> fail (External err)
      | (v, None) \<Rightarrow> ok (if isPointer then VPtr (TPtr t) (Some v) else v))"

definition derefT :: "gtype \<Rightarrow> gtype" where
  "derefT t = (if kindOf t = KPointer then elemT t else t)"

lemma size_elemT:
  "kindOf t = KPointer \<or> kindOf t = KSlice \<or> kindOf t = KArray \<or> kindOf t = KMap
     \<Longrightarrow> size (elemT t) < size t"
  by (induction t) auto

lemma size_keyT: "kindOf t = KMap \<Longrightarrow> size (keyT t) < size t"
  by (induction t) auto

lemma size_derefT: "size (derefT t) \<le> size t"
  using size_elemT [of t] by (auto simp: derefT_def)

text \<open>
  \<open>Parse\<close>.  The recursive calls for the elements, keys and values of a composite
  target pass no hooks, as in the source.
\<close>

function Parse :: "env \<Rightarrow> string \<Rightarrow> gtype \<Rightarrow> ParserHook list \<Rightarrow> result outcome" where
  "Parse E txt t hooks =
     (case hookFor t hooks of
        Some hook \<Rightarrow> Done (ParseFn hook txt)
      | None \<Rightarrow>
          (case parseText txt t of
             Some r \<Rightarrow> r
           | None \<Rightarrow>
               (case parseUnmarshal E txt t of
                  Some r \<Rightarrow> r
                | None \<Rightarrow>
                    (case parseSpecial E txt (derefT t) (kindOf t = KPointer) of
                       Some r \<Rightarrow> r
                     | None \<Rightarrow>
                         (case parseScalar E txt (derefT t) (kindOf t = KPointer) of
                            Some r \<Rightarrow> r
                          | None \<Rightarrow>
                              (case kindOf (derefT t) of
                                 KSlice \<Rightarrow>
                                   parseSlice E (\<lambda>p. Parse E p (elemT (derefT t)) [])
                                     txt (derefT t) (kindOf t = KPointer)
                               | KArray \<Rightarrow>
                                   parseArray E (\<lambda>p. Parse E p (elemT (derefT t)) [])
                                     txt (derefT t) (kindOf t = KPointer)
                               | KMap \<Rightarrow>
                                   parseMap E (\<lambda>p. Parse E p (keyT (derefT t)) [])
                                     (\<lambda>p. Parse E p (elemT (derefT t)) [])
                                     txt (derefT t) (kindOf t = KPointer)
                               | KStruct \<Rightarrow> parseStruct E txt (derefT t) (kindOf t = KPointer)
                               | _ \<Rightarrow> fail (Unsupported (derefT t))))))))"
  by pat_completeness auto
termination
proof (relation "measure (\<lambda>(E, txt, t, hooks). size t)")
  show "wf (measure (\<lambda>(E, txt, t, hooks). size t))" by simp
next
  fix E :: env and s :: string and t :: gtype and hooks :: "ParserHook list" and p :: string
  assume "kindOf (derefT t) = KSlice"
  then have "size (elemT (derefT t)) < size (derefT t)" by (simp add: size_elemT)
  then show "((E, p, elemT (derefT t), []), (E, s, t, hooks)) \<in> measure (\<lambda>(E, txt, t, hooks). size t)"
    using size_derefT [of t] by simp
next
  fix E :: env and s :: string and t :: gtype and hooks :: "ParserHook list" and p :: string
  assume "kindOf (derefT t) = KArray"
  then have "size (elemT (derefT t)) < size (derefT t)" by (simp add: size_elemT)
  then show "((E, p, elemT (derefT t), []), (E, s, t, hooks)) \<in> measure (\<lambda>(E, txt, t, hooks). size t)"
    using size_derefT [of t] by simp
next
  fix E :: env and s :: string and t :: gtype and hooks :: "ParserHook list" and p :: string
  assume "kindOf (derefT t) = KMap"
  then have "size (keyT (derefT t)) < size (derefT t)" by (simp add: size_keyT)
  then show "((E, p, keyT (derefT t), []), (E, s, t, hooks)) \<in> measure (\<lambda>(E, txt, t, hooks). size t)"
    using size_derefT [of t] by simp
next
  fix E :: env and s :: string and t :: gtype and hooks :: "ParserHook list" and p :: string
  assume "kindOf (derefT t) = KMap"
  then have "size (elemT (derefT t)) < size (derefT t)" by (simp add: size_elemT)
  then show "((E, p, elemT (derefT t), []), (E, s, t, hooks)) \<in> measure (\<lambda>(E, txt, t, hooks). size t)"
    using size_derefT [of t] by simp
qed

declare Parse.simps [simp del]


section \<open>The container coercion helper\<close>

text \<open>
  \<open>setValue(field, e, value, set)\<close>.  The destination is given by what the helper
  reads of it: whether it can be set (\<open>field.CanSet()\<close>), its type (\<open>field.Type()\<close>)
  and the callback \<open>set\<close>, which stores a value and yields the new content of the
  destination, or panics.  The result is the triple the source returns and, when the
  callback ran, what it stored.  \<open>setValueBody\<close> is the body of the function,
  \<open>setValue\<close> the body under its deferred \<open>recover\<close>: a panic whose value is an error
  becomes the returned error; the named results are otherwise left as they are, nil.
\<close>

type_synonym 's setres = "gval \<times> gval \<times> 's option \<times> error option"

definition stored :: "(gval \<Rightarrow> 's outcome) \<Rightarrow> gval \<Rightarrow> gval \<Rightarrow> 's setres outcome" where
  "stored setf f res =
     (case setf f of
        Panic p \<Rightarrow> Panic p
      | Done st \<Rightarrow> Done (res, f, Some st, None))"

definition setValueBody ::
  "env \<Rightarrow> bool \<Rightarrow> gtype \<Rightarrow> gtype \<Rightarrow> gval \<Rightarrow> (gval \<Rightarrow> 's outcome) \<Rightarrow> 's setres outcome" where
  "setValueBody E canSet fieldT e val setf =
     (if \<not> canSet then Done (VInvalid, val, None, Some NotAddressable)
      else if kindOf fieldT = KInterface then
        (case typeOf val of
           None \<Rightarrow> Panic (PanicError (ValueError ''reflect: call of reflect.Value.Type on zero Value''))
         | Some ft \<Rightarrow>
             if Implements E ft e then stored setf val val
             else Done (VInvalid, val, None, Some (DoesntImplement val e fieldT)))
      else if kindV val = KString then
        (case Parse E (strOf val) e [] of
           Panic p \<Rightarrow> Panic p
         | Done (v, Some err) \<Rightarrow> Done (VInvalid, val, None, Some err)
         | Done (v, None) \<Rightarrow> stored setf v v)
      else
        (case typeOf val of
           None \<Rightarrow> Panic (PanicError (ValueError ''reflect: call of reflect.Value.Type on zero Value''))
         | Some ft \<Rightarrow>
             if CanConvert E val fieldT
             then stored setf (Convert E val fieldT) (Interface (Convert E val fieldT))
             else if ft \<noteq> e \<or> (kindOf e = KInterface \<and> \<not> Implements E ft e)
             then Done (VInvalid, val, None, Some (InvalidDataType e fieldT))
             else stored setf val val))"

definition setValue ::
  "env \<Rightarrow> bool \<Rightarrow> gtype \<Rightarrow> gtype \<Rightarrow> gval \<Rightarrow> (gval \<Rightarrow> 's outcome) \<Rightarrow> 's setres" where
  "setValue E canSet fieldT e val setf =
     (case setValueBody E canSet fieldT e val setf of
        Done r \<Rightarrow> r
      | Panic (PanicError err) \<Rightarrow> (VInvalid, VInvalid, None, Some err)
      | Panic (PanicValue s) \<Rightarrow> (VInvalid, VInvalid, None, None))"

section \<open>The path navigator\<close>

datatype mode = ModeGet | ModeSet | ModeExists | ModeCreate

text \<open>
  What \<open>process\<close> hands back: a value with a nil error (\<open>Ret\<close>), a nil value with an
  error (\<open>Fail\<close>), or a panic that leaves the function (\<open>Fault\<close>).  The navigator
  mutates the caller's graph in place; the model returns the graph after the call next
  to the result, on every path, also when the call fails.
\<close>

datatype pres = Ret gval | Fail error | Fault fault

text \<open>
  Where the value the navigator descends into lives inside the record: it is a field,
  an element of the sequence in a field, or the value of the entry at a position of the
  map in a field.
\<close>

datatype loc = AtField nat | AtElem nat nat | AtEntry nat nat

datatype step = Return pres gval | Child gval bool gval loc

datatype lookup = NotFound | Unexported | Found nat gtype gval

text \<open>
  The loop over the fields: the first field whose lower-cased name is the segment's.
  \<open>Found i t f\<close> gives the index, \<open>f.Type()\<close> and the field \<open>f\<close>; the type is read off
  the field's value, which carries the field's declared type.
\<close>

definition typeOr :: "gval \<Rightarrow> gtype \<Rightarrow> gtype" where
  "typeOr v t = (case typeOf v of Some u \<Rightarrow> u | None \<Rightarrow> t)"

fun findField :: "string \<Rightarrow> (string \<times> bool \<times> gtype) list \<Rightarrow> gval list \<Rightarrow> nat \<Rightarrow> lookup" where
  "findField fn ((name, exported, ft) # ds) (x # xs) i =
     (if ToLower name = fn then (if \<not> exported then Unexported else Found i (typeOr x ft) x)
      else findField fn ds xs (Suc i))"
| "findField fn ds xs i = NotFound"

fun fieldsV :: "gval \<Rightarrow> gval list" where
  "fieldsV (VStruct t fs) = fs"
| "fieldsV v = []"

fun setFields :: "gval \<Rightarrow> gval list \<Rightarrow> gval" where
  "setFields (VStruct t fs) gs = VStruct t gs"
| "setFields v gs = v"

definition Elem :: "gval \<Rightarrow> gval" where
  "Elem v = (case v of VPtr t (Some x) \<Rightarrow> x | _ \<Rightarrow> VInvalid)"

text \<open>
  A slot of interface type keeps its type when a dynamic value is put into it.
\<close>

fun rewrap :: "gval \<Rightarrow> gval \<Rightarrow> gval" where
  "rewrap (VIface t d) x = (case x of VIface t1 d1 \<Rightarrow> x | _ \<Rightarrow> VIface t x)"
| "rewrap old x = x"

fun withElems :: "gval \<Rightarrow> gval list \<Rightarrow> gval" where
  "withElems (VSlice t xs) ys = VSlice t (Some ys)"
| "withElems (VArray t xs) ys = VArray t ys"
| "withElems (VIface t d) ys = VIface t (withElems d ys)"
| "withElems v ys = v"

fun entriesOf :: "gval \<Rightarrow> (gval \<times> gval) list" where
  "entriesOf (VMap t (Some es)) = es"
| "entriesOf v = []"

fun withEntries :: "gval \<Rightarrow> (gval \<times> gval) list \<Rightarrow> gval" where
  "withEntries (VMap t m) es = VMap t (Some es)"
| "withEntries (VIface t d) es = VIface t (withEntries d es)"
| "withEntries v es = v"

definition putField :: "gval \<Rightarrow> nat \<Rightarrow> gval \<Rightarrow> gval" where
  "putField v fi x = setFields v ((fieldsV v)[fi := x])"

definition putElems :: "gval \<Rightarrow> nat \<Rightarrow> gval list \<Rightarrow> gval" where
  "putElems v fi ys = setFields v ((fieldsV v)[fi := withElems (fieldsV v ! fi) ys])"

definition putEntries :: "gval \<Rightarrow> nat \<Rightarrow> (gval \<times> gval) list \<Rightarrow> gval" where
  "putEntries v fi es = setFields v ((fieldsV v)[fi := withEntries (fieldsV v ! fi) es])"

definition writeBack :: "gval \<Rightarrow> loc \<Rightarrow> gval \<Rightarrow> gval" where
  "writeBack v l c =
     (case l of
        AtField fi \<Rightarrow> putField v fi (rewrap (fieldsV v ! fi) c)
      | AtElem fi idx \<Rightarrow>
          (let xs = elemsOf (Interface (fieldsV v ! fi))
           in putElems v fi (xs[idx := rewrap (xs ! idx) c]))
      | AtEntry fi pos \<Rightarrow>
          (let es = entriesOf (Interface (fieldsV v ! fi))
           in putEntries v fi (es[pos := (fst (es ! pos), rewrap (snd (es ! pos)) c)])))"

text \<open>
  The assignment to a plain field: mode \<open>set\<close>, last segment, no bracket.  The result is
  what \<open>process\<close> returns and, when \<open>field.Set\<close> ran, the new content of the field.
\<close>

definition fieldSet :: "env \<Rightarrow> gtype \<Rightarrow> gval \<Rightarrow> gval \<Rightarrow> pres \<times> gval option" where
  "fieldSet E ft x res =
     (case assignTo E x ft of
        Panic p \<Rightarrow> (Fault p, None)
      | Done s \<Rightarrow> (Ret res, Some s))"

definition parseInto :: "env \<Rightarrow> gtype \<Rightarrow> string \<Rightarrow> pres \<times> gval option" where
  "parseInto E ft txt =
     (case Parse E txt ft [] of
        Panic p \<Rightarrow> (Fault p, None)
      | Done (v, Some err) \<Rightarrow> (Fail err, None)
      | Done (v, None) \<Rightarrow> fieldSet E ft v v)"

definition adjustPointer :: "gtype \<Rightarrow> gval \<Rightarrow> gval" where
  "adjustPointer ft val =
     (if kindOf ft \<noteq> KInterface then
        (if kindOf ft = KPointer
         then (if kindV val \<noteq> KPointer then CopyToHeap val else val)
         else (if kindV val = KPointer then FromPointer val else val))
      else val)"

definition setLeaf :: "env \<Rightarrow> bool \<Rightarrow> gtype \<Rightarrow> gval \<Rightarrow> pres \<times> gval option" where
  "setLeaf E canSet ft val0 =
     (if \<not> canSet then (Fail NotAddressable, None)
      else if val0 = VInvalid then (Ret (Interface (Zero ft)), Some (Zero ft))
      else
        (let f = adjustPointer ft val0 in
         if kindOf ft = KInterface then
           (case typeOf f of
              None \<Rightarrow> (Fault (PanicError (ValueError ''reflect: call of reflect.Value.Type on zero Value'')), None)
            | Some t \<Rightarrow>
                if Implements E t ft then fieldSet E ft f f
                else (Fail (DoesntImplement f t ft), None))
         else if kindV f = KString then parseInto E ft (strOf f)
         else if kindV f = KPointer \<and> kindV (Elem f) = KString then parseInto E ft (strOf (Elem f))
         else
           (case typeOf f of
              None \<Rightarrow> (Fault (PanicError (ValueError ''reflect: call of reflect.Value.Type on zero Value'')), None)
            | Some t \<Rightarrow>
                if CanConvert E f ft
                then fieldSet E ft (Convert E f ft) (Interface (Convert E f ft))
                else if ft \<noteq> t \<or> (kindOf ft = KInterface \<and> \<not> Implements E t ft)
                then (Fail (InvalidDataType t ft), None)
                else fieldSet E ft f f)))"


text \<open>
  The field reached (lines after the lookup): the direct assignment, the construction
  of an absent field, or the field as it is.  \<open>At f a val v\<close> continues with the
  \<open>reflect.Value\<close> \<open>f\<close>, whether it is addressable, \<open>val\<close> and the record \<open>v\<close>.
\<close>

datatype located = Stop pres gval | At gval bool gval gval

definition enterField ::
  "env \<Rightarrow> bool \<Rightarrow> gval \<Rightarrow> mode \<Rightarrow> bool \<Rightarrow> nat \<Rightarrow> gtype \<Rightarrow> gval \<Rightarrow> string option \<Rightarrow> gval \<Rightarrow> located" where
  "enterField E ad v m final fi ft f key val0 =
     (if m = ModeSet \<and> final \<and> key = None then
        (case setLeaf E ad ft val0 of
           (r, None) \<Rightarrow> Stop r v
         | (r, Some s) \<Rightarrow> Stop r (putField v fi s))
      else if IsNil f \<and> (\<not> final \<or> m = ModeCreate) then
        (if m = ModeExists then Stop (Ret VInvalid) v
         else
           (case external (NewWithDefaultsOf E ft) of
              (val, Some err) \<Rightarrow> Stop (Fail err) v
            | (val, None) \<Rightarrow>
                if ad then
                  (case assignTo E val ft of
                     Panic p \<Rightarrow> Stop (Fault p) v
                   | Done s \<Rightarrow> At val False val (putField v fi s))
                else Stop (Fail NotAddressable) v))
      else At f ad (Interface f) v)"

definition Len :: "gval \<Rightarrow> nat" where
  "Len f = length (elemsOf f)"

text \<open>The bracket payload of a sequence: empty brackets append, a number is the index.\<close>

definition indexOf :: "gval \<Rightarrow> string option \<Rightarrow> int \<times> string option" where
  "indexOf f key =
     (case key of
        None \<Rightarrow> (- 1, None)
      | Some k \<Rightarrow>
          if kindV f = KSlice \<or> kindV f = KArray then
            (if k = [] then (int (Len f), None)
             else (case Atoi k of
                     Inr idx \<Rightarrow> (idx, None)
                   | Inl e \<Rightarrow> (- 1, Some k)))
          else (- 1, Some k))"

definition plain :: "bool \<Rightarrow> gval \<Rightarrow> bool \<Rightarrow> gval \<Rightarrow> gval \<Rightarrow> nat \<Rightarrow> step" where
  "plain final f fad val v fi = (if final then Return (Ret val) v else Child f fad v (AtField fi))"

text \<open>A fixed array: the index must be below the length.\<close>

definition arrayIndex ::
  "env \<Rightarrow> mode \<Rightarrow> bool \<Rightarrow> gval \<Rightarrow> gval \<Rightarrow> nat \<Rightarrow> gval \<Rightarrow> bool \<Rightarrow> nat \<Rightarrow> step" where
  "arrayIndex E m final val0 v fi f fad idx =
     (if idx < Len f then
        (let et = elemT (typeOr f (TOther []))
         in if m = ModeSet \<and> final then
              (case setValue E fad et et val0 (\<lambda>x. assignTo E x et) of
                 (res, fv, st, Some err) \<Rightarrow> Return (Fail err) v
               | (res, fv, None, None) \<Rightarrow> Return (Ret res) v
               | (res, fv, Some s, None) \<Rightarrow> Return (Ret res) (putElems v fi ((elemsOf f)[idx := s])))
            else plain final f fad (Interface (elemsOf f ! idx)) v fi)
      else Return (Fail ErrArrayNotExpandable) v)"

text \<open>
  A slice: the loop runs \<open>i\<close> from 0 to the index and appends a default-constructed
  element for every \<open>i\<close> at or beyond the length \<open>l\<close>; under \<open>exists\<close> it returns at the
  first such \<open>i\<close>.  The element at the index is read or assigned in the last round,
  after the append of that round.
\<close>

datatype grown = GrowReturn pres | Grown "gval list"

function growLoop ::
  "env \<Rightarrow> mode \<Rightarrow> gtype \<Rightarrow> gtype \<Rightarrow> nat \<Rightarrow> nat \<Rightarrow> nat \<Rightarrow> gval list \<Rightarrow> grown" where
  "growLoop E m e et l index i xs =
     (if index < i then Grown xs
      else if l \<le> i then
        (if m = ModeExists then GrowReturn (Ret VInvalid)
         else
           (case external (NewWithDefaultsOf E e) of
              (tmp, Some err) \<Rightarrow> GrowReturn (Fail err)
            | (tmp, None) \<Rightarrow>
                (case assignTo E tmp et of
                   Panic p \<Rightarrow> GrowReturn (Fault p)
                 | Done x \<Rightarrow> growLoop E m e et l index (Suc i) (xs @ [x]))))
      else growLoop E m e et l index (Suc i) xs)"
  by pat_completeness auto
termination
  by (relation "measure (\<lambda>(E, m, e, et, l, index, i, xs). Suc index - i)") auto

declare growLoop.simps [simp del]

definition hasElem :: "gtype \<Rightarrow> bool" where
  "hasElem t = (kindOf t = KSlice \<or> kindOf t = KArray \<or> kindOf t = KMap \<or> kindOf t = KPointer)"

definition sliceFinish ::
  "env \<Rightarrow> bool \<Rightarrow> bool \<Rightarrow> gval \<Rightarrow> nat \<Rightarrow> gtype \<Rightarrow> gval \<Rightarrow> nat \<Rightarrow> gval list \<Rightarrow> step" where
  "sliceFinish E ad final v fi ft f idx xs =
     (if ad then
        (case assignTo E (withElems f xs) ft of
           Panic p \<Rightarrow> Return (Fault p) v
         | Done s \<Rightarrow>
             if final then Return (Ret (Interface (xs ! idx))) (putField v fi s)
             else Child (xs ! idx) True (putField v fi s) (AtElem fi idx))
      else Return (Fail NotAddressable) (if idx < Len f then putElems v fi xs else v))"

definition sliceIndex ::
  "env \<Rightarrow> bool \<Rightarrow> mode \<Rightarrow> bool \<Rightarrow> gval \<Rightarrow> gval \<Rightarrow> nat \<Rightarrow> gtype \<Rightarrow> gval \<Rightarrow> nat \<Rightarrow> step" where
  "sliceIndex E ad m final val0 v fi ft f idx =
     (if \<not> hasElem ft then Return (Fault (PanicValue ''reflect: Elem of invalid type'')) v
      else
        (let et = elemT (typeOr f (TOther []))
         in case growLoop E m (elemT ft) et (Len f) idx 0 (elemsOf f) of
              GrowReturn r \<Rightarrow> Return r v
            | Grown xs \<Rightarrow>
                if m = ModeSet \<and> final then
                  (case setValue E True et et val0 (\<lambda>x. assignTo E x et) of
                     (res, fv, st, Some err) \<Rightarrow> Return (Fail err) v
                   | (res, fv, None, None) \<Rightarrow> sliceFinish E ad final v fi ft f idx xs
                   | (res, fv, Some s, None) \<Rightarrow> sliceFinish E ad final v fi ft f idx (xs[idx := s]))
                else sliceFinish E ad final v fi ft f idx xs))"

text \<open>
  A map.  \<open>SetMapIndexV\<close> is \<open>Value.SetMapIndex\<close> on the map value: storing into a nil
  map is a run-time error.
\<close>

definition SetMapIndexV :: "env \<Rightarrow> gval \<Rightarrow> gval \<Rightarrow> gval \<Rightarrow> (gval \<times> gval) list outcome" where
  "SetMapIndexV E f k x =
     (case SetMapIndex E (keyT (typeOr f (TOther []))) (elemT (typeOr f (TOther []))) k x (entriesOf f) of
        Panic p \<Rightarrow> Panic p
      | Done es \<Rightarrow>
          if IsNil f \<and> x \<noteq> VInvalid
          then Panic (PanicError (RuntimeError ''assignment to entry in nil map''))
          else Done es)"

fun entryPos :: "gval \<Rightarrow> (gval \<times> gval) list \<Rightarrow> nat" where
  "entryPos k [] = 0"
| "entryPos k ((k1, v1) # es) = (if k1 = k then 0 else Suc (entryPos k es))"

datatype mapped = MStop step | MGo gval bool gval

definition mapCreate :: "env \<Rightarrow> bool \<Rightarrow> mode \<Rightarrow> gval \<Rightarrow> nat \<Rightarrow> gtype \<Rightarrow> gval \<Rightarrow> bool \<Rightarrow> mapped" where
  "mapCreate E ad m v fi ft f fad =
     (if IsNil f then
        (if m = ModeExists then MStop (Return (Ret VInvalid) v)
         else
           (case external (NewWithDefaultsOf E ft) of
              (val, Some err) \<Rightarrow> MStop (Return (Fail err) v)
            | (val, None) \<Rightarrow>
                if ad then
                  (case assignTo E val ft of
                     Panic p \<Rightarrow> MStop (Return (Fault p) v)
                   | Done s \<Rightarrow> MGo val True (putField v fi s))
                else MStop (Return (Fail NotAddressable) v)))
      else MGo f fad v)"

definition mapKey :: "env \<Rightarrow> gval \<Rightarrow> string \<Rightarrow> result outcome" where
  "mapKey E f key =
     (let txt = Trim key key_cutset; e = keyT (typeOr f (TOther []))
      in if kindOf e \<noteq> KString then Parse E txt e [] else ok (VString TString txt))"

definition putEntriesV :: "gval \<Rightarrow> gval \<Rightarrow> nat \<Rightarrow> (gval \<times> gval) list \<Rightarrow> gval" where
  "putEntriesV f v fi es = (if IsNil f then v else putEntries v fi es)"

definition mapEntry ::
  "env \<Rightarrow> mode \<Rightarrow> bool \<Rightarrow> gval \<Rightarrow> gval \<Rightarrow> nat \<Rightarrow> gval \<Rightarrow> bool \<Rightarrow> gval \<Rightarrow> gval \<Rightarrow> step" where
  "mapEntry E m final val0 v fi f fad kv k =
     (let vt = elemT (typeOr f (TOther [])); es = entriesOf f in
      if m = ModeSet \<and> final then
        (if IsNil val0 then Return (Ret VInvalid) (putEntriesV f v fi (mapDelete k es))
         else
           (case setValue E fad (typeOr f (TOther [])) vt val0 (\<lambda>x. SetMapIndexV E f kv x) of
              (res, fv, st, Some err) \<Rightarrow> Return (Fail err) v
            | (res, fv, None, None) \<Rightarrow> Return (Ret res) v
            | (res, fv, Some es1, None) \<Rightarrow> Return (Ret res) (putEntriesV f v fi es1)))
      else
        (case mapLookup k es of
           Some x \<Rightarrow>
             if final then Return (Ret (Interface x)) v
             else Child x False v (AtEntry fi (entryPos k es))
         | None \<Rightarrow>
             if m = ModeExists then Return (Ret VInvalid) v
             else
               (case external (NewWithDefaultsOf E vt) of
                  (tmp, Some err) \<Rightarrow> Return (Fail err) v
                | (tmp, None) \<Rightarrow>
                    (case SetMapIndexV E f kv tmp of
                       Panic p \<Rightarrow> Return (Fault p) v
                     | Done es1 \<Rightarrow>
                         if final then Return (Ret tmp) (putEntriesV f v fi es1)
                         else Child tmp False (putEntriesV f v fi es1) (AtEntry fi (length es))))))"


definition mapIndex ::
  "env \<Rightarrow> bool \<Rightarrow> mode \<Rightarrow> bool \<Rightarrow> gval \<Rightarrow> gval \<Rightarrow> nat \<Rightarrow> gtype \<Rightarrow> gval \<Rightarrow> bool \<Rightarrow> string \<Rightarrow> step" where
  "mapIndex E ad m final val0 v fi ft f fad key =
     (if kindV f \<noteq> KMap then Return (Fail ErrNotMap) v
      else
        (case mapCreate E ad m v fi ft f fad of
           MStop st \<Rightarrow> st
         | MGo f1 fad1 v1 \<Rightarrow>
             if kindV f1 \<noteq> KMap then Return (Fault (PanicValue ''reflect: Key of non-map type'')) v1
             else
               (case mapKey E f1 key of
                  Panic p \<Rightarrow> Return (Fault p) v1
                | Done (kv, Some err) \<Rightarrow> Return (Fail err) v1
                | Done (kv, None) \<Rightarrow>
                    (case assignTo E kv (keyT (typeOr f1 (TOther []))) of
                       Panic p \<Rightarrow> Return (Fault p) v1
                     | Done k \<Rightarrow> mapEntry E m final val0 v1 fi f1 fad1 kv k))))"

definition bracket ::
  "env \<Rightarrow> bool \<Rightarrow> mode \<Rightarrow> bool \<Rightarrow> gval \<Rightarrow> gval \<Rightarrow> nat \<Rightarrow> gtype \<Rightarrow> gval \<Rightarrow> bool \<Rightarrow> gval
     \<Rightarrow> string option \<Rightarrow> step" where
  "bracket E ad m final val0 v fi ft f fad val key =
     (case indexOf f key of
        (index, key1) \<Rightarrow>
          if 0 \<le> index then
            (if kindV f = KArray then arrayIndex E m final val0 v fi f fad (nat index)
             else if kindV f = KSlice then sliceIndex E ad m final val0 v fi ft f (nat index)
             else plain final f fad val v fi)
          else
            (case key1 of
               Some k \<Rightarrow> mapIndex E ad m final val0 v fi ft f fad k
             | None \<Rightarrow> plain final f fad val v fi))"

text \<open>
  The segment: lower-cased, trimmed, and cut into the field name and the bracket
  payload when the regular expression matches.
\<close>

definition segment :: "string \<Rightarrow> string \<times> string option" where
  "segment p =
     (let fn = Trim (ToLower p) ws_cutset
      in case array_FindStringSubmatch fn of
           Some (name, key) \<Rightarrow> (name, Some key)
         | None \<Rightarrow> (fn, None))"

text \<open>One round of \<open>process\<close> on a record: the first segment of the path.\<close>

definition processStep :: "env \<Rightarrow> bool \<Rightarrow> gval \<Rightarrow> mode \<Rightarrow> gval \<Rightarrow> string \<Rightarrow> bool \<Rightarrow> step" where
  "processStep E ad v m val0 p final =
     (case segment p of
        (fn, key) \<Rightarrow>
          (case findField fn (structFields (typeOr v (TOther []))) (fieldsV v) 0 of
             NotFound \<Rightarrow> Return (Fail (NotFoundError fn)) v
           | Unexported \<Rightarrow> Return (Fail (NotExported fn)) v
           | Found fi ft f \<Rightarrow>
               (case enterField E ad v m final fi ft f key val0 of
                  Stop r v1 \<Rightarrow> Return r v1
                | At f1 fad val v1 \<Rightarrow> bracket E ad m final val0 v1 fi ft f1 fad val key)))"

fun isPtrTo :: "gval \<Rightarrow> bool" where
  "isPtrTo (VPtr t (Some x)) = True"
| "isPtrTo v = False"

fun isStructV :: "gval \<Rightarrow> bool" where
  "isStructV (VStruct t fs) = True"
| "isStructV v = False"

fun setElem :: "gval \<Rightarrow> gval \<Rightarrow> gval" where
  "setElem (VPtr t p) x = VPtr t (Some x)"
| "setElem v x = v"

lemma size_Elem: "isPtrTo v \<Longrightarrow> size (Elem v) < size v"
  by (cases v rule: isPtrTo.cases) (auto simp: Elem_def)

text \<open>
  \<open>process\<close>.  The loop at its head follows pointers; the value behind a pointer is
  addressable.  A nil pointer leaves the zero \<open>reflect.Value\<close>, which is no record.
  The recursive call descends into the child with the rest of the path; what the call
  changed in the child is a change of the record.
\<close>

function process :: "env \<Rightarrow> bool \<Rightarrow> gval \<Rightarrow> mode \<Rightarrow> gval \<Rightarrow> string list \<Rightarrow> pres \<times> gval" where
  "process E ad v m val0 [] = (Ret VInvalid, v)"
| "process E ad v m val0 (p # rest) =
     (if isPtrTo v then
        (case process E True (Elem v) m val0 (p # rest) of
           (r, x) \<Rightarrow> (r, setElem v x))
      else if \<not> isStructV v then (Fail ErrNotAStruct, v)
      else
        (case processStep E ad v m val0 p (rest = []) of
           Return r v1 \<Rightarrow> (r, v1)
         | Child f fad v1 l \<Rightarrow>
             (case process E fad f m val0 rest of
                (r, f1) \<Rightarrow> (r, writeBack v1 l f1))))"
  by pat_completeness auto
termination
  by (relation "measures [\<lambda>(E, ad, v, m, val0, path). length path, \<lambda>(E, ad, v, m, val0, path). size v]")
     (auto simp: size_Elem)

declare process.simps [simp del]

section \<open>The entry points\<close>

text \<open>
  Each entry point splits the path, checks its precondition on the root and calls
  \<open>process\<close>.  \<open>reflect.ValueOf(obj)\<close> is not addressable.  Next to its result, an entry
  point gives the caller's graph after the call.
\<close>

definition Exists :: "env \<Rightarrow> gval \<Rightarrow> string \<Rightarrow> (bool \<times> error option) outcome \<times> gval" where
  "Exists E obj path =
     (let parts = split path in
      if \<not> IsStruct obj then (Done (False, Some (Errorf ''exists supports only structs'')), obj)
      else
        (case process E False obj ModeExists VInvalid parts of
           (Ret r, g) \<Rightarrow> (Done (\<not> IsNil r, None), g)
         | (Fail err, g) \<Rightarrow> (Done (False, Some err), g)
         | (Fault p, g) \<Rightarrow> (Panic p, g)))"

definition Get :: "env \<Rightarrow> gval \<Rightarrow> string \<Rightarrow> pres \<times> gval" where
  "Get E obj path =
     (let parts = split path in
      if \<not> IsStruct obj then (Fail (Errorf ''get supports only structs''), obj)
      else process E False obj ModeGet VInvalid parts)"

definition Create :: "env \<Rightarrow> gval \<Rightarrow> string \<Rightarrow> pres \<times> gval" where
  "Create E obj path =
     (let parts = split path in
      if \<not> IsStruct obj then (Fail (Errorf ''create supports only structs''), obj)
      else if \<not> IsPointer obj then (Fail (Errorf ''create supports only struct pointers''), obj)
      else process E False obj ModeCreate VInvalid parts)"

definition Set :: "env \<Rightarrow> gval \<Rightarrow> string \<Rightarrow> gval \<Rightarrow> pres \<times> gval" where
  "Set E obj path val0 =
     (let parts = split path in
      if \<not> IsStruct obj then (Fail (Errorf ''set supports only structs''), obj)
      else if \<not> IsPointer obj then (Fail (Errorf ''set supports only struct pointers''), obj)
      else process E False obj ModeSet val0 parts)"


section \<open>A concrete environment and sample records\<close>

text \<open>
  The instances below run the model on concrete inputs.  \<open>plainEnv\<close> is a program
  without custom capabilities: no type has methods, the initializer builds a pointer
  to a zero value, an empty map, an empty slice, nil for an interface type, or the zero
  value, and the external parsers reject every text.
\<close>

definition newDefault :: "gtype \<Rightarrow> gval" where
  "newDefault t =
     (if kindOf t = KPointer then VPtr t (Some (Zero (elemT t)))
      else if kindOf t = KMap then VMap t (Some [])
      else if kindOf t = KSlice then VSlice t (Some [])
      else if kindOf t = KInterface then VInvalid
      else Zero t)"

definition plainEnv :: env where
  "plainEnv =
     \<lparr>implements = (\<lambda>t u. False),
      UnmarshalText = (\<lambda>t. None),
      UnmarshalYAML = (\<lambda>t. None),
      NewWithDefaultsOf = (\<lambda>t. (newDefault t, None)),
      ParseDuration = (\<lambda>s. (0, Some ''invalid duration'')),
      ParseMAC = (\<lambda>s. (VInvalid, Some ''invalid MAC address'')),
      ParseCIDR = (\<lambda>s. (VInvalid, Some ''invalid CIDR address'')),
      ParseFloat = (\<lambda>s b. (0, Some ErrSyntax)),
      ParseComplex = (\<lambda>s b. ((0, 0), Some ErrSyntax)),
      jsonStruct = (\<lambda>t s. (VInvalid, Some ''invalid character'')),
      extConvert = (\<lambda>v t. None)\<rparr>"

definition intT :: gtype where "intT = TInt I0"

definition intV :: "int \<Rightarrow> gval" where "intV i = VInt intT i"

definition strV :: "string \<Rightarrow> gval" where "strV s = VString TString s"

text \<open>\<open>type sub struct { Array [1]string; Text string }\<close> and \<open>type obj struct { Value sub }\<close>.\<close>

definition subT :: gtype where
  "subT = TNamed ''sub'' (TStruct [(''Array'', True, TArray 1 TString), (''Text'', True, TString)])"

definition objT :: gtype where
  "objT = TNamed ''obj'' (TStruct [(''Value'', True, subT)])"

definition objV :: gval where
  "objV = VPtr (TPtr objT) (Some (VStruct objT [VStruct subT [VArray (TArray 1 TString) [strV []], strV []]]))"


definition subV :: gval where
  "subV = VStruct subT [VArray (TArray 1 TString) [strV []], strV []]"


text \<open>\<open>type bag struct { Items []int }\<close> with the given elements.\<close>

definition bagT :: gtype where
  "bagT = TNamed ''bag'' (TStruct [(''Items'', True, TSlice intT)])"

definition bagOf :: "int list \<Rightarrow> gval" where
  "bagOf xs = VStruct bagT [VSlice (TSlice intT) (Some (map intV xs))]"

text \<open>\<open>type bag8 struct { Items []int8 }\<close> with the given elements.\<close>

definition bag8T :: gtype where
  "bag8T = TNamed ''bag8'' (TStruct [(''Items'', True, TSlice (TInt I8))])"

definition bag8Of :: "int list \<Rightarrow> gval" where
  "bag8Of xs = VStruct bag8T [VSlice (TSlice (TInt I8)) (Some (map (VInt (TInt I8)) xs))]"

text \<open>Three hooks: one for \<open>int\<close>, then two for the same declared type, the first failing.\<close>

definition customT :: gtype where
  "customT = TNamed ''customParserHookType'' (TStruct [(''Data'', True, TString)])"

definition intHook :: ParserHook where
  "intHook = NewParserHook intT (\<lambda>s. (intV 7, None))"

definition failingHook :: ParserHook where
  "failingHook = NewParserHook customT (\<lambda>s. (VInvalid, Some (HookError ''invalid format for custom parser'')))"

definition dataHook :: ParserHook where
  "dataHook = NewParserHook customT (\<lambda>s. (VStruct customT [strV s], None))"

text \<open>\<open>type inner struct { B int }\<close> and \<open>type outer struct { A inner }\<close>.\<close>

definition innerT :: gtype where
  "innerT = TNamed ''inner'' (TStruct [(''B'', True, intT)])"

definition outerT :: gtype where
  "outerT = TNamed ''outer'' (TStruct [(''A'', True, innerT)])"

definition abV :: gval where
  "abV = VPtr (TPtr outerT) (Some (VStruct outerT [VStruct innerT [intV 5]]))"






text \<open>\<open>type holder struct { M map[string]int }\<close>, a record of it, and a map as the value to set.\<close>

definition mapT :: gtype where
  "mapT = TMap TString intT"

definition holderT :: gtype where
  "holderT = TNamed ''holder'' (TStruct [(''M'', True, mapT)])"

definition holderMap :: gval where
  "holderMap = VMap mapT (Some [(strV ''a'', intV 1)])"

definition holderV :: gval where
  "holderV = VPtr (TPtr holderT) (Some (VStruct holderT [holderMap]))"

definition mapArg :: gval where
  "mapArg = VMap mapT (Some [(strV ''x'', intV 2)])"

section \<open>Definitions used to state the properties\<close>

text \<open>
  The state of the predicate of \<open>split\<close> (\<open>quoted\<close>, \<open>braces\<close>) after it has read a prefix
  of the path; a prefix is \<open>neutral\<close> when it leaves the predicate outside quotes and
  brackets, so that a dot after it is a separator.
\<close>

fun sepState :: "bool \<times> bool \<Rightarrow> string \<Rightarrow> bool \<times> bool" where
  "sepState st [] = st"
| "sepState st (r # rs) =
     sepState ((if r = dquote \<or> r = squote \<or> r = btick then \<not> fst st else fst st),
               (if r = CHR '']'' then False else if r = CHR ''['' then True else snd st)) rs"

definition neutral :: "string \<Rightarrow> bool" where
  "neutral p = (sepState (False, False) p = (False, False))"

text \<open>Two spellings of a path on which the four operations agree, on every root and value.\<close>

definition behaveAlike :: "string \<Rightarrow> string \<Rightarrow> bool" where
  "behaveAlike p1 p2 =
     (\<forall>E obj val0. Get E obj p1 = Get E obj p2 \<and> Set E obj p1 val0 = Set E obj p2 val0
        \<and> Exists E obj p1 = Exists E obj p2 \<and> Create E obj p1 = Create E obj p2)"

text \<open>
  The map literal as a specification reads it, to be compared with the loop of the
  source: a piece with exactly one \<open>=\<close> is cut at it into the text of the key and the
  text of the value; any other piece yields no entry.  The pieces are taken in order,
  each side is parsed into the key and the value type, and the first error ends the
  parse.
\<close>

definition pieceKV :: "string \<Rightarrow> (string \<times> string) option" where
  "pieceKV p =
     (if count_list p (CHR ''='') = 1
      then Some (takeWhile (\<lambda>c. c \<noteq> CHR ''='') p, tl (dropWhile (\<lambda>c. c \<noteq> CHR ''='') p))
      else None)"

fun mapOfPieces ::
  "env \<Rightarrow> gtype \<Rightarrow> gtype \<Rightarrow> (gval \<times> gval) list \<Rightarrow> string list \<Rightarrow> ((gval \<times> gval) list \<times> error option) outcome" where
  "mapOfPieces E kt vt s [] = Done (s, None)"
| "mapOfPieces E kt vt s (p # parts) =
     (case pieceKV p of
        None \<Rightarrow> mapOfPieces E kt vt s parts
      | Some (ktxt, vtxt) \<Rightarrow>
          (case Parse E ktxt kt [] of
             Panic f \<Rightarrow> Panic f
           | Done (k, Some err) \<Rightarrow> Done ([], Some err)
           | Done (k, None) \<Rightarrow>
               (case Parse E vtxt vt [] of
                  Panic f \<Rightarrow> Panic f
                | Done (v, Some err) \<Rightarrow> Done ([], Some err)
                | Done (v, None) \<Rightarrow>
                    (case SetMapIndex E kt vt k v s of
                       Panic f \<Rightarrow> Panic f
                     | Done s1 \<Rightarrow> mapOfPieces E kt vt s1 parts))))"

text \<open>
  A round of \<open>process\<close> that keeps the record: the record it hands on is the record it
  was given, and writing the child back as it is gives that record again.
\<close>

definition stepKeeps :: "gval \<Rightarrow> step \<Rightarrow> bool" where
  "stepKeeps v st =
     (case st of
        Return r v1 \<Rightarrow> v1 = v
      | Child c cad v1 l \<Rightarrow> v1 = v \<and> writeBack v l c = v)"

text \<open>
  The errors of the parser and of the coercion helper are none of the navigator's own
  messages (\<open>Errorf\<close>); \<open>goodRes\<close> says so of a result or a panic.
\<close>

fun notErrorf :: "error \<Rightarrow> bool" where
  "notErrorf (Errorf s) = False"
| "notErrorf e = True"

definition goodRes :: "('a \<times> error option) outcome \<Rightarrow> bool" where
  "goodRes r =
     (case r of
        Done (v, Some err) \<Rightarrow> notErrorf err
      | Done (v, None) \<Rightarrow> True
      | Panic (PanicError err) \<Rightarrow> notErrorf err
      | Panic (PanicValue s) \<Rightarrow> True)"






section \<open>The path splitter and the empty path\<close>

lemma FieldsFunc_nonempty_acc: "cur \<noteq> [] \<Longrightarrow> FieldsFunc_split q b cur rs \<noteq> []"
  by (induction rs arbitrary: q b cur) (auto simp: Let_def)

lemma FieldsFunc_dots_acc:
  "FieldsFunc_split False False cur p = [] \<longleftrightarrow> cur = [] \<and> (\<forall>c\<in>set p. c = CHR ''.'')"
proof (induction p arbitrary: cur)
  case Nil
  show ?case by simp
next
  case (Cons r rs)
  show ?case
  proof (cases "r = CHR ''.''")
    case True
    then show ?thesis using Cons.IH [of "[]"]
      by (auto simp: dquote_def squote_def btick_def)
  next
    case False
    then show ?thesis using FieldsFunc_nonempty_acc [of "cur @ [r]"]
      by (auto simp: Let_def)
  qed
qed

lemma split_empty_iff: "split path = [] \<longleftrightarrow> (\<forall>c\<in>set path. c = CHR ''.'')"
  by (simp add: split_def FieldsFunc_dots_acc)

lemma objV_struct: "IsStruct objV \<and> IsPointer objV"
  by (simp add: objV_def IsPointer_def kindV_def)

text \<open>
  Claim C10.  A path whose split yields no segments (by \<open>split_empty_iff\<close>: the empty
  path and the paths made of dots only) makes \<open>process\<close> return at once: on a root that
  passes the entry point's precondition, \<open>Get\<close>, \<open>Create\<close> and \<open>Set\<close> return the nil value
  with the nil error, \<open>Exists\<close> returns false with the nil error, and the caller's graph
  is left as it was.
\<close>

theorem empty_path_is_no_op:
  assumes "split path = []" and "IsStruct obj"
  shows "Get E obj path = (Ret VInvalid, obj)
       \<and> Exists E obj path = (Done (False, None), obj)
       \<and> (IsPointer obj \<longrightarrow> Create E obj path = (Ret VInvalid, obj)
                            \<and> Set E obj path val0 = (Ret VInvalid, obj))"
  using assms by (simp add: Get_def Exists_def Create_def Set_def process.simps)

theorem empty_path_is_no_op_witness:
  "split ''..'' = [] \<and> IsStruct objV \<and> IsPointer objV
   \<and> Get plainEnv objV ''..'' = (Ret VInvalid, objV)
   \<and> Exists plainEnv objV ''..'' = (Done (False, None), objV)
   \<and> Create plainEnv objV ''..'' = (Ret VInvalid, objV)
   \<and> Set plainEnv objV ''..'' (strV ''x'') = (Ret VInvalid, objV)"
proof -
  have s: "split ''..'' = []" by (simp add: split_empty_iff)
  from empty_path_is_no_op [OF s, of objV plainEnv "strV ''x''"] objV_struct s
  show ?thesis by simp
qed

lemma FieldsFunc_cons:
  "FieldsFunc_split q b cur (c # p) =
           (if \<not> snd (sepState (q, b) [c]) \<and> \<not> fst (sepState (q, b) [c]) \<and> c = CHR ''.''
            then (if cur = [] then [] else [cur])
                   @ FieldsFunc_split (fst (sepState (q, b) [c])) (snd (sepState (q, b) [c])) [] p
            else FieldsFunc_split (fst (sepState (q, b) [c])) (snd (sepState (q, b) [c])) (cur @ [c]) p)"
  by (simp only: FieldsFunc_split.simps sepState.simps Let_def fst_conv snd_conv)
lemma sepState_cons: "sepState (q, b) (c # p) = sepState (sepState (q, b) [c]) p"
  by (simp only: sepState.simps)

lemma quote_neq [simp]:
  "CHR ''.'' \<noteq> dquote" "CHR ''.'' \<noteq> squote" "CHR ''.'' \<noteq> btick"
  by (simp_all add: dquote_def squote_def btick_def)

lemma FieldsFunc_append:
  "\<exists>outs cur1. \<forall>r. FieldsFunc_split q b cur (p @ r)
      = outs @ FieldsFunc_split (fst (sepState (q, b) p)) (snd (sepState (q, b) p)) cur1 r"
proof (induction p arbitrary: q b cur)
  case Nil
  show ?case by (rule exI [of _ "[]"], rule exI [of _ cur]) simp
next
  case (Cons c p)
  obtain Q B where QB: "sepState (q, b) [c] = (Q, B)" by (cases "sepState (q, b) [c]") blast
  have st1: "\<And>x. FieldsFunc_split q b cur (c # x) =
           (if \<not> B \<and> \<not> Q \<and> c = CHR ''.''
            then (if cur = [] then [] else [cur]) @ FieldsFunc_split Q B [] x
            else FieldsFunc_split Q B (cur @ [c]) x)"
    using FieldsFunc_cons [of q b cur c] by (simp only: QB fst_conv snd_conv)
  have st2: "sepState (q, b) (c # p) = sepState (Q, B) p"
    using sepState_cons [of q b c p] by (simp only: QB)
  show ?case
  proof (cases "\<not> B \<and> \<not> Q \<and> c = CHR ''.''")
    case True
    from Cons.IH [of Q B "[]"] obtain outs cur1 where
      h: "\<And>r. FieldsFunc_split Q B [] (p @ r)
            = outs @ FieldsFunc_split (fst (sepState (Q, B) p)) (snd (sepState (Q, B) p)) cur1 r"
      by blast
    have "\<forall>r. FieldsFunc_split q b cur ((c # p) @ r)
      = ((if cur = [] then [] else [cur]) @ outs)
          @ FieldsFunc_split (fst (sepState (q, b) (c # p))) (snd (sepState (q, b) (c # p))) cur1 r"
      by (simp only: append_Cons st1 [unfolded if_P [OF True]] st2 h append_assoc simp_thms)
    then show ?thesis by blast
  next
    case False
    from Cons.IH [of Q B "cur @ [c]"] obtain outs cur1 where
      h: "\<And>r. FieldsFunc_split Q B (cur @ [c]) (p @ r)
            = outs @ FieldsFunc_split (fst (sepState (Q, B) p)) (snd (sepState (Q, B) p)) cur1 r"
      by blast
    have "\<forall>r. FieldsFunc_split q b cur ((c # p) @ r)
      = outs @ FieldsFunc_split (fst (sepState (q, b) (c # p))) (snd (sepState (q, b) (c # p))) cur1 r"
      by (simp only: append_Cons st1 [unfolded if_not_P [OF False]] st2 h simp_thms)
    then show ?thesis by blast
  qed
qed

lemma FieldsFunc_dot:
  "FieldsFunc_split False False cur (CHR ''.'' # r)
     = (if cur = [] then [] else [cur]) @ FieldsFunc_split False False [] r"
  by simp

lemma FieldsFunc_collapse:
  assumes "neutral p"
  shows "FieldsFunc_split False False [] (p @ ''..'' @ r) = FieldsFunc_split False False [] (p @ ''.'' @ r)"
    and "FieldsFunc_split False False [] (p @ ''.'') = FieldsFunc_split False False [] p"
proof -
  from FieldsFunc_append [of False False "[]" p] assms obtain outs cur1 where
    h: "\<And>r. FieldsFunc_split False False [] (p @ r) = outs @ FieldsFunc_split False False cur1 r"
    by (auto simp: neutral_def)
  show "FieldsFunc_split False False [] (p @ ''..'' @ r) = FieldsFunc_split False False [] (p @ ''.'' @ r)"
    by (simp only: h append_Cons append_Nil FieldsFunc_dot if_True append_Nil2 simp_thms)
  have a: "FieldsFunc_split False False [] (p @ []) = outs @ FieldsFunc_split False False cur1 []"
    by (rule h)
  have b: "FieldsFunc_split False False [] (p @ ''.'') = outs @ FieldsFunc_split False False cur1 ''.''"
    by (rule h)
  have c: "FieldsFunc_split False False cur1 ''.'' = FieldsFunc_split False False cur1 []"
    by (simp add: FieldsFunc_dot)
  from a b c show "FieldsFunc_split False False [] (p @ ''.'') = FieldsFunc_split False False [] p"
    by simp
qed

lemma behaveAlike_split: "split p1 = split p2 \<Longrightarrow> behaveAlike p1 p2"
  by (simp add: behaveAlike_def Get_def Set_def Exists_def Create_def)

text \<open>
  Claim C6, as amended.  Empty segments are discarded: a doubled dot after a neutral
  prefix, a leading dot and a trailing dot after a neutral prefix leave the list of
  segments unchanged, and the four operations, which read the path only through
  \<open>split\<close>, behave alike on the two spellings.  So \<open>a..b\<close>, \<open>.a.b\<close> and \<open>a.b.\<close> resolve as
  \<open>a.b\<close> does, and \<open>a.\<close> resolves as \<open>a\<close> does.
\<close>

theorem dots_collapse:
  "(neutral p \<longrightarrow> split (p @ ''..'' @ r) = split (p @ ''.'' @ r) \<and> behaveAlike (p @ ''..'' @ r) (p @ ''.'' @ r))
   \<and> (neutral p \<longrightarrow> split (p @ ''.'') = split p \<and> behaveAlike (p @ ''.'') p)
   \<and> split (''.'' @ r) = split r \<and> behaveAlike (''.'' @ r) r"
proof -
  have a: "split (p @ ''..'' @ r) = split (p @ ''.'' @ r)" if "neutral p"
    using FieldsFunc_collapse(1) [OF that, of r] by (simp only: split_def)
  have b: "split (p @ ''.'') = split p" if "neutral p"
    using FieldsFunc_collapse(2) [OF that] by (simp only: split_def)
  have c: "split (''.'' @ r) = split r" by (simp add: split_def FieldsFunc_dot)
  from a b c behaveAlike_split show ?thesis by blast
qed

theorem dots_collapse_witness:
  "neutral ''a'' \<and> neutral ''a.b''
   \<and> split ''a..b'' = split ''a.b'' \<and> behaveAlike ''a..b'' ''a.b''
   \<and> split ''.a.b'' = split ''a.b'' \<and> behaveAlike ''.a.b'' ''a.b''
   \<and> split ''a.b.'' = split ''a.b'' \<and> behaveAlike ''a.b.'' ''a.b''
   \<and> split ''a.'' = split ''a'' \<and> behaveAlike ''a.'' ''a''"
proof -
  have n: "neutral ''a''" "neutral ''a.b''"
    by (simp_all add: neutral_def dquote_def squote_def btick_def)
  from dots_collapse [of "''a''" "''b''"] dots_collapse [of "''a.b''" "[]"] dots_collapse [of "[]" "''a.b''"] n
  show ?thesis by simp
qed

text \<open>
  Claim C6 as stated fails for the spelling \<open>a.\<close>: it names the field \<open>a\<close>, not the
  field \<open>a.b\<close>, and \<open>Get\<close> returns the record in \<open>a\<close> for it.
\<close>

theorem trailing_dot_counterexample:
  "split ''a.'' = [''a''] \<and> split ''a.b'' = [''a'', ''b'']
   \<and> Get plainEnv abV ''a.'' = (Ret (VStruct innerT [intV 5]), abV)
   \<and> Get plainEnv abV ''a.b'' = (Ret (intV 5), abV)
   \<and> \<not> behaveAlike ''a.'' ''a.b''"
proof -
  have s: "split ''a.'' = [''a'']" "split ''a.b'' = [''a'', ''b'']" by code_simp+
  have g1: "Get plainEnv abV ''a.'' = (Ret (VStruct innerT [intV 5]), abV)" by code_simp
  have g2: "Get plainEnv abV ''a.b'' = (Ret (intV 5), abV)" by code_simp
  have "Get plainEnv abV ''a.'' \<noteq> Get plainEnv abV ''a.b''"
    by (simp add: g1 g2 intV_def)
  then have "\<not> behaveAlike ''a.'' ''a.b''" unfolding behaveAlike_def by blast
  with s g1 g2 show ?thesis by simp
qed

section \<open>The parser\<close>

text \<open>
  Claim C7.  When some hook of the list has the requested type as its target, \<open>Parse\<close>
  returns what the first such hook returns, value and error as they are, and nothing
  else runs; when no hook has it, the result is the one without hooks.
\<close>

theorem Parse_hook_first:
  "((\<exists>h\<in>set hooks. To h = t) \<longrightarrow>
      (\<exists>pre h post. hooks = pre @ h # post \<and> To h = t \<and> (\<forall>g\<in>set pre. To g \<noteq> t)
         \<and> Parse E txt t hooks = Done (ParseFn h txt)))
   \<and> ((\<forall>h\<in>set hooks. To h \<noteq> t) \<longrightarrow> Parse E txt t hooks = Parse E txt t [])"
proof (intro conjI impI)
  assume "\<exists>h\<in>set hooks. To h = t"
  then obtain pre h post where d: "hooks = pre @ h # post" "To h = t" "\<forall>g\<in>set pre. To g \<noteq> t"
    using split_list_first_prop [of hooks "\<lambda>h. To h = t"] by blast
  have "hookFor t (pre @ h # post) = Some h" using d(2,3) by (induction pre) auto
  then have "Parse E txt t hooks = Done (ParseFn h txt)" using d(1) by (simp add: Parse.simps)
  with d show "\<exists>pre h post. hooks = pre @ h # post \<and> To h = t \<and> (\<forall>g\<in>set pre. To g \<noteq> t)
         \<and> Parse E txt t hooks = Done (ParseFn h txt)" by blast
next
  assume "\<forall>h\<in>set hooks. To h \<noteq> t"
  then have "hookFor t hooks = None" by (induction hooks) auto
  then show "Parse E txt t hooks = Parse E txt t []"
    by (simp add: Parse.simps [of E "txt" t hooks] Parse.simps [of E "txt" t "[]"])
qed

theorem Parse_hook_first_witness:
  "(\<exists>h\<in>set [intHook, failingHook, dataHook]. To h = customT)
   \<and> (\<exists>pre h post. [intHook, failingHook, dataHook] = pre @ h # post \<and> To h = customT
        \<and> (\<forall>g\<in>set pre. To g \<noteq> customT)
        \<and> Parse plainEnv ''custom:my-data'' customT [intHook, failingHook, dataHook]
            = Done (ParseFn h ''custom:my-data''))
   \<and> Parse plainEnv ''custom:my-data'' customT [intHook, failingHook, dataHook]
        = Done (VInvalid, Some (HookError ''invalid format for custom parser''))
   \<and> list_all (\<lambda>h. To h \<noteq> TString) [intHook, failingHook, dataHook]
   \<and> Parse plainEnv ''just a string'' TString [intHook, failingHook, dataHook]
        = Parse plainEnv ''just a string'' TString []"
proof -
  have tos: "To intHook = intT" "To failingHook = customT" "To dataHook = customT"
    by (simp_all add: intHook_def failingHook_def dataHook_def NewParserHook_def)
  have ne: "intT \<noteq> customT" "intT \<noteq> TString" "customT \<noteq> TString"
    by (simp_all add: intT_def customT_def)
  have a: "\<exists>h\<in>set [intHook, failingHook, dataHook]. To h = customT" using tos by simp
  have b: "\<forall>h\<in>set [intHook, failingHook, dataHook]. To h \<noteq> TString" using tos ne by simp
  have b': "list_all (\<lambda>h. To h \<noteq> TString) [intHook, failingHook, dataHook]" using tos ne by simp
  have c: "Parse plainEnv ''custom:my-data'' customT [intHook, failingHook, dataHook]
        = Done (VInvalid, Some (HookError ''invalid format for custom parser''))"
    using tos ne by (simp add: Parse.simps failingHook_def NewParserHook_def)
  from Parse_hook_first [of "[intHook, failingHook, dataHook]" customT plainEnv "''custom:my-data''"] a
  have d: "\<exists>pre h post. [intHook, failingHook, dataHook] = pre @ h # post \<and> To h = customT
        \<and> (\<forall>g\<in>set pre. To g \<noteq> customT)
        \<and> Parse plainEnv ''custom:my-data'' customT [intHook, failingHook, dataHook]
            = Done (ParseFn h ''custom:my-data'')"
    by blast
  from Parse_hook_first [of "[intHook, failingHook, dataHook]" TString plainEnv "''just a string''"] b
  have e: "Parse plainEnv ''just a string'' TString [intHook, failingHook, dataHook]
        = Parse plainEnv ''just a string'' TString []"
    by blast
  show ?thesis by (intro conjI) (rule a, rule d, rule c, rule b', rule e)
qed

lemma elemsOf_retype [simp]: "elemsOf (retype v t) = elemsOf v"
  by (cases v rule: elemsOf.cases) auto


lemma parseText_None: "kindOf (derefT t) \<noteq> KString \<Longrightarrow> parseText txt t = None"
  by (auto simp: parseText_def derefT_def)

lemma parseUnmarshal_None:
  "UnmarshalText E (derefT t) = None \<Longrightarrow> UnmarshalYAML E (derefT t) = None \<Longrightarrow> parseUnmarshal E txt t = None"
  by (auto simp: parseUnmarshal_def derefT_def)

lemma kinds_special [simp]:
  "kindOf durationT = KInt I64" "kindOf hardwareAddrT = KSlice" "kindOf ipNetT = KStruct"
  by (simp_all add: durationT_def hardwareAddrT_def ipNetT_def bytesT_def)

lemma parseSpecial_None:
  "kindOf t \<noteq> KInt I64 \<Longrightarrow> t \<noteq> hardwareAddrT \<Longrightarrow> kindOf t \<noteq> KStruct \<Longrightarrow> parseSpecial E txt t p = None"
  by (auto simp: parseSpecial_def)

lemma parseScalar_None:
  "kindOf t = KSlice \<or> kindOf t = KArray \<or> kindOf t = KMap \<Longrightarrow> parseScalar E txt t p = None"
  by (auto simp: parseScalar_def)

lemma Parse_composite:
  assumes "hookFor t hooks = None"
    and "UnmarshalText E (derefT t) = None" and "UnmarshalYAML E (derefT t) = None"
    and "derefT t \<noteq> hardwareAddrT"
    and "kindOf (derefT t) = KSlice \<or> kindOf (derefT t) = KArray \<or> kindOf (derefT t) = KMap"
  shows "Parse E txt t hooks =
     (case kindOf (derefT t) of
        KSlice \<Rightarrow> parseSlice E (\<lambda>p. Parse E p (elemT (derefT t)) []) txt (derefT t) (kindOf t = KPointer)
      | KArray \<Rightarrow> parseArray E (\<lambda>p. Parse E p (elemT (derefT t)) []) txt (derefT t) (kindOf t = KPointer)
      | _ \<Rightarrow> parseMap E (\<lambda>p. Parse E p (keyT (derefT t)) []) (\<lambda>p. Parse E p (elemT (derefT t)) [])
                txt (derefT t) (kindOf t = KPointer))"
proof -
  have a: "parseText txt t = None" using assms(5) by (auto intro: parseText_None)
  have b: "parseUnmarshal E txt t = None" using assms(2,3) by (rule parseUnmarshal_None)
  have c: "parseSpecial E txt (derefT t) (kindOf t = KPointer) = None"
    using assms(4,5) by (auto intro: parseSpecial_None)
  have d: "parseScalar E txt (derefT t) (kindOf t = KPointer) = None"
    using assms(5) by (rule parseScalar_None)
  show ?thesis
    using assms(1,5) a b c d by (subst Parse.simps) auto
qed

lemma HasPrefix_0x [simp]:
  "HasPrefix (CHR ''0'' # CHR ''x'' # h) ''0x''" "TrimPrefix (CHR ''0'' # CHR ''x'' # h) ''0x'' = h"
  by (simp_all add: HasPrefix_def TrimPrefix_def)


lemma plainEnv_simps [simp]:
  "UnmarshalText plainEnv t = None" "UnmarshalYAML plainEnv t = None"
  "implements plainEnv a b = False" "extConvert plainEnv v t = None"
  "NewWithDefaultsOf plainEnv t = (newDefault t, None)"
  by (simp_all add: plainEnv_def)



lemma strings_Split_nonempty: "strings_Split p c \<noteq> []"
  by (induction p) (auto split: list.splits)

lemma strings_Split_length: "length (strings_Split p c) = Suc (count_list p c)"
  by (induction p) (auto split: list.splits simp: strings_Split_nonempty)

lemma strings_Split_none: "c \<notin> set p \<Longrightarrow> strings_Split p c = [p]"
  by (induction p) auto

lemma strings_Split_first:
  "c \<notin> set a \<Longrightarrow> strings_Split (a @ c # b) c = a # strings_Split b c"
  by (induction a) auto

lemma count_list_0: "count_list p c = 0 \<longleftrightarrow> c \<notin> set p"
  by (induction p) auto

lemma count_one_decomp:
  "count_list p c = 1 \<Longrightarrow>
     p = takeWhile (\<lambda>x. x \<noteq> c) p @ c # tl (dropWhile (\<lambda>x. x \<noteq> c) p)
     \<and> c \<notin> set (tl (dropWhile (\<lambda>x. x \<noteq> c) p))"
  by (induction p) (auto simp: count_list_0 split: if_splits)

lemma strings_Split_two:
  "strings_Split p c = [a, b] \<longleftrightarrow>
     count_list p c = 1 \<and> a = takeWhile (\<lambda>x. x \<noteq> c) p \<and> b = tl (dropWhile (\<lambda>x. x \<noteq> c) p)"
proof
  assume h: "strings_Split p c = [a, b]"
  then have c1: "count_list p c = 1" using strings_Split_length [of p c] by simp
  from count_one_decomp [OF c1] have
    d: "p = takeWhile (\<lambda>x. x \<noteq> c) p @ c # tl (dropWhile (\<lambda>x. x \<noteq> c) p)"
    and n: "c \<notin> set (tl (dropWhile (\<lambda>x. x \<noteq> c) p))" by auto
  have "c \<notin> set (takeWhile (\<lambda>x. x \<noteq> c) p)" by (auto dest: set_takeWhileD)
  then have "strings_Split (takeWhile (\<lambda>x. x \<noteq> c) p @ c # tl (dropWhile (\<lambda>x. x \<noteq> c) p)) c
      = [takeWhile (\<lambda>x. x \<noteq> c) p, tl (dropWhile (\<lambda>x. x \<noteq> c) p)]"
    using n by (simp add: strings_Split_first strings_Split_none)
  with d h show "count_list p c = 1 \<and> a = takeWhile (\<lambda>x. x \<noteq> c) p \<and> b = tl (dropWhile (\<lambda>x. x \<noteq> c) p)"
    using c1 by simp
next
  assume h: "count_list p c = 1 \<and> a = takeWhile (\<lambda>x. x \<noteq> c) p \<and> b = tl (dropWhile (\<lambda>x. x \<noteq> c) p)"
  from count_one_decomp [of p c] h have
    d: "p = a @ c # b" and n: "c \<notin> set b" by auto
  have "c \<notin> set a" using h by (auto dest: set_takeWhileD)
  then have "strings_Split (a @ c # b) c = [a, b]"
    using n by (simp add: strings_Split_first strings_Split_none)
  with d show "strings_Split p c = [a, b]" by simp
qed

lemma mapLoop_piece:
  "mapLoop E Pk Pv kt vt s (p # parts) =
     (case pieceKV p of
        None \<Rightarrow> mapLoop E Pk Pv kt vt s parts
      | Some (ktxt, vtxt) \<Rightarrow>
          (case Pk ktxt of
             Panic f \<Rightarrow> Panic f
           | Done (k, Some err) \<Rightarrow> Done ([], Some err)
           | Done (k, None) \<Rightarrow>
               (case Pv vtxt of
                  Panic f \<Rightarrow> Panic f
                | Done (v, Some err) \<Rightarrow> Done ([], Some err)
                | Done (v, None) \<Rightarrow>
                    (case SetMapIndex E kt vt k v s of
                       Panic f \<Rightarrow> Panic f
                     | Done s1 \<Rightarrow> mapLoop E Pk Pv kt vt s1 parts))))"
proof (cases "count_list p (CHR ''='') = 1")
  case True
  then have "strings_Split p (CHR ''='') =
      [takeWhile (\<lambda>c. c \<noteq> CHR ''='') p, tl (dropWhile (\<lambda>c. c \<noteq> CHR ''='') p)]"
    using strings_Split_two [of p "CHR ''=''"] by simp
  then show ?thesis using True by (simp add: pieceKV_def)
next
  case False
  then have "length (strings_Split p (CHR ''='')) \<noteq> 2"
    by (simp add: strings_Split_length)
  then have "\<And>a b. strings_Split p (CHR ''='') \<noteq> [a, b]" by auto
  then show ?thesis using False
    by (simp add: pieceKV_def split: list.splits)
qed

lemma mapLoop_is_mapOfPieces:
  "mapLoop E (\<lambda>p. Parse E p kt []) (\<lambda>p. Parse E p vt []) kt vt s parts = mapOfPieces E kt vt s parts"
proof (induction parts arbitrary: s)
  case Nil
  show ?case by simp
next
  case (Cons p parts)
  show ?case
    by (simp only: mapLoop_piece mapOfPieces.simps Cons.IH)
qed

text \<open>
  Claim C2, as amended.  For a target of map kind that no earlier step of \<open>Parse\<close> takes,
  the text is split on commas by \<open>Split\<close>, every piece that holds exactly one \<open>=\<close> is
  cut at it and its two sides are parsed into the key and the value type, every other
  piece (no \<open>=\<close>, or more than one) is skipped without an error, and the empty text
  yields the empty, non-nil map.
\<close>

theorem Parse_map_pieces:
  assumes "hookFor t hooks = None"
    and "UnmarshalText E (derefT t) = None" and "UnmarshalYAML E (derefT t) = None"
    and "kindOf (derefT t) = KMap"
  shows "Parse E txt t hooks =
           (case mapOfPieces E (keyT (derefT t)) (elemT (derefT t)) [] (Split txt (CHR '','')) of
              Panic f \<Rightarrow> Panic f
            | Done (s, Some err) \<Rightarrow> fail err
            | Done (s, None) \<Rightarrow>
                ok (if kindOf t = KPointer then CopyToHeap (VMap (derefT t) (Some s))
                    else VMap (derefT t) (Some s)))
       \<and> Parse E [] t hooks =
           ok (if kindOf t = KPointer then CopyToHeap (VMap (derefT t) (Some []))
               else VMap (derefT t) (Some []))"
proof -
  have n: "derefT t \<noteq> hardwareAddrT" using assms(4) by auto
  have c: "\<And>s. convert E (VMap (derefT t) (Some s)) (derefT t) (kindOf t = KPointer)
       = ok (if kindOf t = KPointer then CopyToHeap (VMap (derefT t) (Some s)) else VMap (derefT t) (Some s))"
    by (simp add: convert_def)
  have P: "\<And>txt. Parse E txt t hooks =
           (case mapOfPieces E (keyT (derefT t)) (elemT (derefT t)) [] (Split txt (CHR '','')) of
              Panic f \<Rightarrow> Panic f
            | Done (s, Some err) \<Rightarrow> fail err
            | Done (s, None) \<Rightarrow>
                ok (if kindOf t = KPointer then CopyToHeap (VMap (derefT t) (Some s))
                    else VMap (derefT t) (Some s)))"
    using assms(4)
    by (simp add: Parse_composite [OF assms(1-3) n] parseMap_def mapLoop_is_mapOfPieces c
             split: outcome.splits option.splits prod.splits)
  have e: "Split [] (CHR '','') = [[]]" by (simp add: Split_def)
  have "Parse E [] t hooks =
           ok (if kindOf t = KPointer then CopyToHeap (VMap (derefT t) (Some []))
               else VMap (derefT t) (Some []))"
    by (simp only: P e) (simp add: pieceKV_def)
  with P show ?thesis by blast
qed

theorem Parse_map_pieces_witness:
  "Parse plainEnv ''a,b=5,c=d=e'' (TMap TString TString) []
     = ok (VMap (TMap TString TString) (Some [(strV ''b'', strV ''5'')]))
   \<and> Parse plainEnv [] (TMap TString TString) [] = ok (VMap (TMap TString TString) (Some []))"
proof -
  have m: "mapOfPieces plainEnv TString TString [] (Split ''a,b=5,c=d=e'' (CHR '',''))
      = Done ([(strV ''b'', strV ''5'')], None)"
    by code_simp
  from Parse_map_pieces [of "TMap TString TString" "[]" plainEnv "''a,b=5,c=d=e''"] m
  show ?thesis by (simp add: derefT_def)
qed

text \<open>
  Claim C2 as stated fails: the source splits a piece at every \<open>=\<close> and keeps it only
  when that gives two parts, so \<open>a=b=c\<close> yields no entry, not the entry of \<open>a\<close> with the
  value \<open>b=c\<close>.
\<close>

theorem Parse_map_second_equals_counterexample:
  "Parse plainEnv ''a=b=c'' (TMap TString TString) [] = ok (VMap (TMap TString TString) (Some []))
   \<and> Parse plainEnv ''a=b=c'' (TMap TString TString) []
       \<noteq> ok (VMap (TMap TString TString) (Some [(strV ''a'', strV ''b=c'')]))"
proof -
  have a: "Parse plainEnv ''a=b=c'' (TMap TString TString) [] = ok (VMap (TMap TString TString) (Some []))"
    by code_simp
  show ?thesis by (simp add: a ok_def)
qed

section \<open>The container coercion helper under recover\<close>

lemma setValueBody_panics:
  "setValueBody plainEnv True mapT intT mapArg (\<lambda>x. SetMapIndexV plainEnv holderMap (strV ''k'') x)
     = Panic (PanicValue ''reflect: value is not assignable to type'')"
  by code_simp

text \<open>
  Claim C9.  \<open>Set(&holder, "m[k]", map[string]int{"x": 2})\<close> on a field
  \<open>M map[string]int\<close>: the value converts to the type of the map (\<open>field.Type()\<close>), so the
  helper calls \<open>SetMapIndex\<close> with a map where an \<open>int\<close> is due; \<open>reflect\<close> panics with a
  string, \<open>recover\<close> finds no error in the panic value, and the helper returns nil, the
  zero \<open>reflect.Value\<close> and a nil error: the fault is trapped, no error is returned,
  nothing is stored (a later \<open>Get\<close> of the entry creates it).
\<close>

theorem setValue_swallows_panic:
  "setValue plainEnv True mapT intT mapArg (\<lambda>x. SetMapIndexV plainEnv holderMap (strV ''k'') x)
     = (VInvalid, VInvalid, None, None)
   \<and> Set plainEnv holderV ''m[k]'' mapArg = (Ret VInvalid, holderV)
   \<and> Get plainEnv holderV ''m[k]'' = (Ret (intV 0), VPtr (TPtr holderT) (Some (VStruct holderT [VMap mapT (Some [(strV ''a'', intV 1), (strV ''k'', intV 0)])])))"
  by code_simp

section \<open>The navigator under the mode exists\<close>

text \<open>The field found is the field at the index found, at its own type.\<close>

lemma findField_Found:
  "findField fn ds xs i = Found fi ft f \<Longrightarrow>
     i \<le> fi \<and> fi - i < length xs \<and> xs ! (fi - i) = f \<and> typeOr f ft = ft"
proof (induction fn ds xs i rule: findField.induct)
  case (1 fn name exported ft0 ds x xs i)
  show ?case
  proof (cases "ToLower name = fn")
    case True
    with "1.prems" show ?thesis
      by (auto simp: typeOr_def split: if_splits option.splits)
  next
    case False
    with "1.prems" have "findField fn ds xs (Suc i) = Found fi ft f" by simp
    from "1.IH" [OF False this] show ?thesis
      by (auto simp: Suc_diff_le nth_Cons')
  qed
qed simp_all


lemma rewrap_same [simp]: "rewrap x x = x"
  by (cases x) auto












lemma stepKeeps_Return [simp]: "stepKeeps v (Return r v1) = (v1 = v)"
  by (simp add: stepKeeps_def)

lemma stepKeeps_Child [simp]: "stepKeeps v (Child c cad v1 l) = (v1 = v \<and> writeBack v l c = v)"
  by (simp add: stepKeeps_def)

















section \<open>Fixed arrays\<close>

text \<open>
  No error of \<open>Parse\<close> without hooks, and none of the coercion helper, is an \<open>Errorf\<close>
  of the navigator.
\<close>

lemma goodRes_simps [simp]:
  "goodRes (Done (v, None))" "goodRes (Done (v, Some err)) = notErrorf err"
  "goodRes (Panic (PanicError err)) = notErrorf err" "goodRes (Panic (PanicValue s))"
  "goodRes (ok x)" "goodRes (fail err) = notErrorf err"
  by (simp_all add: goodRes_def ok_def fail_def)

lemma goodRes_iff:
  "goodRes r \<longleftrightarrow>
     (\<forall>v e. r = Done (v, Some e) \<longrightarrow> notErrorf e) \<and> (\<forall>e. r = Panic (PanicError e) \<longrightarrow> notErrorf e)"
  by (auto simp: goodRes_def split: outcome.splits prod.splits option.splits fault.splits)

lemma assignTo_good: "assignTo E x t = Panic (PanicError err) \<Longrightarrow> notErrorf err"
  by (auto simp: assignTo_def split: option.splits if_splits)

lemma goodRes_convert [simp]: "goodRes (convert E v t p)"
  by (simp add: convert_def Let_def)

lemma sliceLoop_good:
  "(\<And>p. goodRes (P p)) \<Longrightarrow> goodRes (sliceLoop E P e s parts)"
proof (induction parts arbitrary: s)
  case Nil
  show ?case by simp
next
  case (Cons p parts)
  from Cons.prems [of p] Cons.IH [OF Cons.prems] show ?case
    by (auto simp: goodRes_iff split: outcome.splits prod.splits option.splits fault.splits
             dest: assignTo_good)
qed

lemma arrayLoop_good:
  "(\<And>p. goodRes (P p)) \<Longrightarrow> goodRes (arrayLoop E P e i s parts)"
proof (induction parts arbitrary: i s)
  case Nil
  show ?case by simp
next
  case (Cons p parts)
  from Cons.prems [of p] Cons.IH [OF Cons.prems] show ?case
    by (auto simp: goodRes_iff split: outcome.splits prod.splits option.splits fault.splits
             dest: assignTo_good)
qed

lemma SetMapIndex_good: "SetMapIndex E kt vt k v s = Panic (PanicError err) \<Longrightarrow> notErrorf err"
  by (auto simp: SetMapIndex_def split: outcome.splits if_splits dest: assignTo_good)

lemma mapLoop_good:
  "(\<And>p. goodRes (Pk p)) \<Longrightarrow> (\<And>p. goodRes (Pv p)) \<Longrightarrow> goodRes (mapLoop E Pk Pv kt vt s parts)"
proof (induction parts arbitrary: s)
  case Nil
  show ?case by simp
next
  case (Cons p parts)
  note ih = Cons.IH [OF Cons.prems]
  show ?case
  proof (cases "\<exists>a b. strings_Split p (CHR ''='') = [a, b]")
    case True
    then obtain a b where ab: "strings_Split p (CHR ''='') = [a, b]" by blast
    from Cons.prems(1) [of a] Cons.prems(2) [of b] ih show ?thesis
      by (auto simp: ab goodRes_iff split: outcome.splits prod.splits option.splits fault.splits
               dest: SetMapIndex_good)
  next
    case False
    then have "mapLoop E Pk Pv kt vt s (p # parts) = mapLoop E Pk Pv kt vt s parts"
      by (auto split: list.splits)
    then show ?thesis using ih by simp
  qed
qed

lemma goodRes_case:
  "goodRes r \<Longrightarrow> (\<And>s. goodRes (g s)) \<Longrightarrow>
    goodRes (case r of Panic f \<Rightarrow> Panic f | Done (s, Some err) \<Rightarrow> fail err | Done (s, None) \<Rightarrow> g s)"
  by (auto simp: goodRes_iff fail_def split: outcome.splits prod.splits option.splits fault.splits)

lemma parseSlice_good: "(\<And>p. goodRes (P p)) \<Longrightarrow> goodRes (parseSlice E P txt t ip)"
  using sliceLoop_good [of P E]
  by (auto simp: parseSlice_def Let_def intro!: goodRes_case split: sum.splits)

lemma parseArray_good: "(\<And>p. goodRes (P p)) \<Longrightarrow> goodRes (parseArray E P txt t ip)"
  using arrayLoop_good [of P E]
  by (auto simp: parseArray_def Let_def intro!: goodRes_case split: sum.splits)

lemma parseMap_good:
  "(\<And>p. goodRes (Pk p)) \<Longrightarrow> (\<And>p. goodRes (Pv p)) \<Longrightarrow> goodRes (parseMap E Pk Pv txt t ip)"
  using mapLoop_good [of Pk Pv E]
  by (auto simp: parseMap_def intro!: goodRes_case)

lemma parseUnmarshal_good: "parseUnmarshal E txt t = Some r \<Longrightarrow> goodRes r"
  by (auto simp: parseUnmarshal_def runUnmarshal_def split: if_splits option.splits prod.splits)

lemma parseText_good: "parseText txt t = Some r \<Longrightarrow> goodRes r"
  by (auto simp: parseText_def split: if_splits)

lemma parseSpecial_good: "parseSpecial E txt t ip = Some r \<Longrightarrow> goodRes r"
  by (auto simp: parseSpecial_def split: if_splits option.splits prod.splits)

lemma parseScalar_good: "parseScalar E txt t ip = Some r \<Longrightarrow> goodRes r"
  by (auto simp: parseScalar_def parseSigned_def parseUnsigned_def parseFloating_def parseCplx_def Let_def
           split: kind.splits ikind.splits sum.splits prod.splits option.splits)

lemma parseStruct_good: "goodRes (parseStruct E txt t ip)"
  by (auto simp: parseStruct_def split: prod.splits option.splits)

lemma Parse_good_aux: "hooks = [] \<Longrightarrow> goodRes (Parse E s t hooks)"
proof (induction E s t hooks rule: Parse.induct)
  case (1 E s t hooks)
  have h: "hookFor t hooks = None" using 1(5) by simp
  show ?case
  proof (cases "parseText s t")
    case (Some r)
    then show ?thesis using h parseText_good [OF Some] by (subst Parse.simps) simp
  next
    case pt: None
    show ?thesis
    proof (cases "parseUnmarshal E s t")
      case (Some r)
      then show ?thesis using h pt parseUnmarshal_good [OF Some] by (subst Parse.simps) simp
    next
      case pu: None
      show ?thesis
      proof (cases "parseSpecial E s (derefT t) (kindOf t = KPointer)")
        case (Some r)
        then show ?thesis using h pt pu parseSpecial_good [OF Some] by (subst Parse.simps) simp
      next
        case ps: None
        show ?thesis
        proof (cases "parseScalar E s (derefT t) (kindOf t = KPointer)")
          case (Some r)
          then show ?thesis using h pt pu ps parseScalar_good [OF Some] by (subst Parse.simps) simp
        next
          case pc: None
          note ih = 1(1-4) [OF h pt pu ps pc]
          have "goodRes (case kindOf (derefT t) of
                   KSlice \<Rightarrow> parseSlice E (\<lambda>p. Parse E p (elemT (derefT t)) []) s (derefT t) (kindOf t = KPointer)
                 | KArray \<Rightarrow> parseArray E (\<lambda>p. Parse E p (elemT (derefT t)) []) s (derefT t) (kindOf t = KPointer)
                 | KMap \<Rightarrow> parseMap E (\<lambda>p. Parse E p (keyT (derefT t)) []) (\<lambda>p. Parse E p (elemT (derefT t)) [])
                            s (derefT t) (kindOf t = KPointer)
                 | KStruct \<Rightarrow> parseStruct E s (derefT t) (kindOf t = KPointer)
                 | _ \<Rightarrow> fail (Unsupported (derefT t)))"
            using ih
            by (cases "kindOf (derefT t)")
               (simp_all add: parseSlice_good parseArray_good parseMap_good parseStruct_good)
          then show ?thesis using h pt pu ps pc by (subst Parse.simps) simp
        qed
      qed
    qed
  qed
qed

lemma Parse_good: "goodRes (Parse E s t [])"
  by (simp add: Parse_good_aux)

lemma stored_assign_good:
  "stored (\<lambda>x. assignTo E x et) a b = Panic (PanicError err) \<Longrightarrow> notErrorf err"
  by (auto simp: stored_def split: outcome.splits dest: assignTo_good)

lemma stored_assign_Done:
  "stored (\<lambda>x. assignTo E x et) a b = Done (res, fv, st, Some err) \<Longrightarrow> False"
  by (auto simp: stored_def split: outcome.splits)

lemma setValue_good:
  assumes "setValue E canSet ft e val0 (\<lambda>x. assignTo E x et) = (res, fv, st, Some err)"
  shows "notErrorf err"
proof -
  have P: "goodRes (Parse E (strOf val0) e [])" by (rule Parse_good)
  show ?thesis
  proof (cases "setValueBody E canSet ft e val0 (\<lambda>x. assignTo E x et)")
    case (Done r)
    then have r: "r = (res, fv, st, Some err)" using assms by (simp add: setValue_def)
    from Done [unfolded r] P show ?thesis
      by (auto simp: setValueBody_def goodRes_iff split: if_splits option.splits outcome.splits prod.splits
               dest: stored_assign_Done)
  next
    case (Panic p)
    then obtain e1 where p: "p = PanicError e1" and e1: "e1 = err"
      using assms by (cases p) (simp_all add: setValue_def)
    from Panic [unfolded p e1] P show ?thesis
      by (auto simp: setValueBody_def goodRes_iff split: if_splits option.splits outcome.splits prod.splits
               dest: stored_assign_good)
  qed
qed

lemma ErrNotAStruct_neq: "ErrNotAStruct \<noteq> ErrArrayNotExpandable"
  by (simp add: ErrNotAStruct_def ErrArrayNotExpandable_def msg_isnt_def)

lemma notErrorf_neq: "notErrorf err \<Longrightarrow> err \<noteq> ErrArrayNotExpandable"
  by (auto simp: ErrArrayNotExpandable_def)

lemma process_struct:
  "isStructV v \<Longrightarrow> process E ad v m val0 (p # rest) =
     (case processStep E ad v m val0 p (rest = []) of
        Return r v1 \<Rightarrow> (r, v1)
      | Child f fad v1 l \<Rightarrow> (case process E fad f m val0 rest of (r, f1) \<Rightarrow> (r, writeBack v1 l f1)))"
  by (cases v rule: isStructV.cases) (simp_all add: process.simps)

lemma processStep_array:
  assumes seg: "segment p = (fn, Some key)"
    and fnd: "findField fn (structFields (typeOr v (TOther []))) (fieldsV v) 0 = Found fi ft (VArray t xs)"
    and kind: "kindOf t = KArray"
    and idx: "Atoi key = Inr idx" "0 \<le> idx"
  shows "processStep E ad v m val0 p final = arrayIndex E m final val0 v fi (VArray t xs) ad (nat idx)"
proof -
  have k: "key \<noteq> []" using idx(1) by (auto simp: Atoi_def ParseInt_def)
  have kv: "kindV (VArray t xs) = KArray" using kind by (simp add: kindV_def)
  have e: "enterField E ad v m final fi ft (VArray t xs) (Some key) val0
             = At (VArray t xs) ad (VArray t xs) v"
    by (simp add: enterField_def)
  show ?thesis
    by (simp add: processStep_def seg fnd e bracket_def indexOf_def kv k idx)
qed

lemma arrayIndex_beyond:
  "Len f \<le> idx \<Longrightarrow> arrayIndex E m final val0 v fi f fad idx = Return (Fail ErrArrayNotExpandable) v"
  by (simp add: arrayIndex_def)

lemma arrayIndex_within:
  assumes "idx < Len f"
  shows "(\<exists>r v1. arrayIndex E m final val0 v fi f fad idx = Return r v1 \<and> r \<noteq> Fail ErrArrayNotExpandable)
       \<or> (\<not> final \<and> arrayIndex E m final val0 v fi f fad idx = Child f fad v (AtField fi))"
proof (cases "m = ModeSet \<and> final")
  case True
  obtain res fv st eo where sv:
    "setValue E fad (elemT (typeOr f (TOther []))) (elemT (typeOr f (TOther []))) val0
       (\<lambda>x. assignTo E x (elemT (typeOr f (TOther [])))) = (res, fv, st, eo)"
    using prod_cases4 by blast
  show ?thesis
  proof (cases eo)
    case None
    then show ?thesis using assms True sv by (cases st) (simp_all add: arrayIndex_def Let_def)
  next
    case (Some err)
    with setValue_good sv have "notErrorf err" by blast
    then have "err \<noteq> ErrArrayNotExpandable" by (rule notErrorf_neq)
    then show ?thesis using assms True sv Some by (cases st) (simp_all add: arrayIndex_def Let_def)
  qed
next
  case False
  then show ?thesis using assms by (auto simp: arrayIndex_def Let_def plain_def)
qed

text \<open>
  Claim C3, as amended.  A field holding a fixed array, reached with a bracket payload that
  \<open>strconv.Atoi\<close> reads as the number \<open>idx\<close>.  If \<open>idx\<close> is at or beyond the length of
  the array, \<open>process\<close> fails under each of the four modes with the error
  "array isn't expandable" and leaves the record as it is, whatever the rest of the
  path; if \<open>idx\<close> is within the array, no mode fails with that error.
\<close>

theorem array_index_range:
  assumes "isStructV v"
    and "segment p = (fn, Some key)"
    and "findField fn (structFields (typeOr v (TOther []))) (fieldsV v) 0 = Found fi ft (VArray t xs)"
    and "kindOf t = KArray"
    and "Atoi key = Inr idx"
  shows "(int (length xs) \<le> idx \<longrightarrow> (\<forall>m. process E ad v m val0 (p # rest) = (Fail ErrArrayNotExpandable, v)))
       \<and> (0 \<le> idx \<and> idx < int (length xs) \<longrightarrow>
            (\<forall>m. fst (process E ad v m val0 (p # rest)) \<noteq> Fail ErrArrayNotExpandable))"
proof -
  have len: "Len (VArray t xs) = length xs" by (simp add: Len_def)
  have out: "process E ad v m val0 (p # rest) = (Fail ErrArrayNotExpandable, v)"
    if "int (length xs) \<le> idx" for m
  proof -
    have i: "0 \<le> idx" "Len (VArray t xs) \<le> nat idx" using that len by simp_all
    show ?thesis
      by (simp add: process_struct [OF assms(1)]
            processStep_array [OF assms(2,3,4,5) i(1)] arrayIndex_beyond [OF i(2)])
  qed
  have inr: "fst (process E ad v m val0 (p # rest)) \<noteq> Fail ErrArrayNotExpandable"
    if "0 \<le> idx" "idx < int (length xs)" for m
  proof -
    have i: "nat idx < Len (VArray t xs)" using that len by simp
    note st = processStep_array [OF assms(2,3,4,5) that(1), of E ad m val0 "rest = []"]
    from arrayIndex_within [OF i, of E m "rest = []" val0 v fi ad] show ?thesis
    proof
      assume "\<exists>r v1. arrayIndex E m (rest = []) val0 v fi (VArray t xs) ad (nat idx) = Return r v1
                \<and> r \<noteq> Fail ErrArrayNotExpandable"
      then show ?thesis by (auto simp: process_struct [OF assms(1)] st)
    next
      assume a: "rest \<noteq> [] \<and> arrayIndex E m (rest = []) val0 v fi (VArray t xs) ad (nat idx)
                  = Child (VArray t xs) ad v (AtField fi)"
      then obtain q qs where r: "rest = q # qs" by (cases rest) auto
      have "process E ad (VArray t xs) m val0 rest = (Fail ErrNotAStruct, VArray t xs)"
        by (simp add: r process.simps)
      moreover from a have f: "(rest = []) = False" by simp
      from a st have "processStep E ad v m val0 p False = Child (VArray t xs) ad v (AtField fi)"
        unfolding f by simp
      ultimately show ?thesis using a ErrNotAStruct_neq
        by (simp add: process_struct [OF assms(1)])
    qed
  qed
  from out inr show ?thesis by blast
qed

theorem array_index_range_witness:
  "(\<forall>m. process plainEnv True subV m (strV ''x'') [''array[1]''] = (Fail ErrArrayNotExpandable, subV))
   \<and> (\<forall>m. fst (process plainEnv True subV m (strV ''x'') [''array[0]'']) \<noteq> Fail ErrArrayNotExpandable)
   \<and> Get plainEnv objV ''value.array[1]'' = (Fail ErrArrayNotExpandable, objV)
   \<and> Set plainEnv objV ''value.array[1]'' (strV ''x'') = (Fail ErrArrayNotExpandable, objV)
   \<and> Exists plainEnv objV ''value.array[1]'' = (Done (False, Some ErrArrayNotExpandable), objV)
   \<and> Create plainEnv objV ''value.array[1]'' = (Fail ErrArrayNotExpandable, objV)"
proof -
  have s: "isStructV subV" by (simp add: subV_def)
  have s1: "segment ''array[1]'' = (''array'', Some ''1'')" by code_simp
  have s0: "segment ''array[0]'' = (''array'', Some ''0'')" by code_simp
  have f: "findField ''array'' (structFields (typeOr subV (TOther []))) (fieldsV subV) 0
             = Found 0 (TArray 1 TString) (VArray (TArray 1 TString) [strV []])"
    by code_simp
  have k: "kindOf (TArray 1 TString) = KArray" by simp
  have a1: "Atoi ''1'' = Inr 1" by code_simp
  have a0: "Atoi ''0'' = Inr 0" by code_simp
  have A: "\<forall>m. process plainEnv True subV m (strV ''x'') [''array[1]''] = (Fail ErrArrayNotExpandable, subV)"
    using array_index_range [OF s s1 f k a1, of plainEnv True "strV ''x''" "[]"] by simp
  have B: "\<forall>m. fst (process plainEnv True subV m (strV ''x'') [''array[0]'']) \<noteq> Fail ErrArrayNotExpandable"
    using array_index_range [OF s s0 f k a0, of plainEnv True "strV ''x''" "[]"] by simp
  have C: "Get plainEnv objV ''value.array[1]'' = (Fail ErrArrayNotExpandable, objV)" by code_simp
  have D: "Set plainEnv objV ''value.array[1]'' (strV ''x'') = (Fail ErrArrayNotExpandable, objV)" by code_simp
  have F: "Exists plainEnv objV ''value.array[1]'' = (Done (False, Some ErrArrayNotExpandable), objV)" by code_simp
  have G: "Create plainEnv objV ''value.array[1]'' = (Fail ErrArrayNotExpandable, objV)" by code_simp
  from A B C D F G show ?thesis by blast
qed

text \<open>
  A payload that \<open>strconv.Atoi\<close> rejects is no index of the array: it stays a map key,
  and every mode fails with "field is not a map".
\<close>

lemma processStep_array_key:
  assumes seg: "segment p = (fn, Some key)"
    and fnd: "findField fn (structFields (typeOr v (TOther []))) (fieldsV v) 0 = Found fi ft (VArray t xs)"
    and kind: "kindOf t = KArray"
    and key: "key \<noteq> []" "Atoi key = Inl e"
  shows "processStep E ad v m val0 p final = Return (Fail ErrNotMap) v"
proof -
  have kv: "kindV (VArray t xs) = KArray" using kind by (simp add: kindV_def)
  have en: "enterField E ad v m final fi ft (VArray t xs) (Some key) val0
             = At (VArray t xs) ad (VArray t xs) v"
    by (simp add: enterField_def)
  show ?thesis
    by (simp add: processStep_def seg fnd en bracket_def indexOf_def kv key mapIndex_def)
qed

lemma array_payload_not_int:
  assumes "isStructV v"
    and "segment p = (fn, Some key)"
    and "findField fn (structFields (typeOr v (TOther []))) (fieldsV v) 0 = Found fi ft (VArray t xs)"
    and "kindOf t = KArray"
    and "key \<noteq> []" and "Atoi key = Inl e"
  shows "process E ad v m val0 (p # rest) = (Fail ErrNotMap, v)"
  by (simp add: process_struct [OF assms(1)] processStep_array_key [OF assms(2-6)])

text \<open>
  Claim C3 as stated fails for digits beyond the range of \<open>int\<close>: \<open>strconv.Atoi\<close> rejects
  it, the payload stays a map key, and the operations fail with "field is not a map".
\<close>

theorem array_index_beyond_int_counterexample:
  "Get plainEnv objV ''value.array[9223372036854775808]'' = (Fail ErrNotMap, objV)
   \<and> Set plainEnv objV ''value.array[9223372036854775808]'' (strV ''x'') = (Fail ErrNotMap, objV)
   \<and> Exists plainEnv objV ''value.array[9223372036854775808]'' = (Done (False, Some ErrNotMap), objV)
   \<and> Create plainEnv objV ''value.array[9223372036854775808]'' = (Fail ErrNotMap, objV)
   \<and> ErrNotMap \<noteq> ErrArrayNotExpandable"
  by code_simp

section \<open>Growth of a slice\<close>

text \<open>
  The loop of the slice branch, outside the mode \<open>exists\<close>: it appends one default
  element for every index from the length to the requested index.
\<close>

lemma growLoop_grow:
  assumes m: "m \<noteq> ModeExists"
    and d: "NewWithDefaultsOf E e = (d, None)"
    and a: "assignTo E d et = Done d'"
  shows "i \<le> Suc idx \<Longrightarrow>
    growLoop E m e et l idx i xs = Grown (xs @ replicate (Suc idx - max i l) d')"
proof (induction "Suc idx - i" arbitrary: i xs)
  case 0
  then have "i = Suc idx" by simp
  then show ?case by (subst growLoop.simps) simp
next
  case (Suc k)
  then have lt: "i \<le> idx" and k: "k = Suc idx - Suc i" and le: "Suc i \<le> Suc idx" by simp_all
  note ih = Suc.hyps(1) [OF k le]
  show ?case
  proof (cases "l \<le> i")
    case True
    then have "Suc idx - max i l = Suc (Suc idx - max (Suc i) l)" using lt by (simp add: max_def)
    then show ?thesis using True lt m d a ih [of "xs @ [d']"]
      by (subst growLoop.simps) (simp add: external_def replicate_app_Cons_same)
  next
    case False
    then have "Suc idx - max i l = Suc idx - max (Suc i) l" by (simp add: max_def)
    then show ?thesis using False lt ih [of xs]
      by (subst growLoop.simps) simp
  qed
qed

lemma processStep_slice:
  assumes seg: "segment p = (fn, Some key)"
    and fnd: "findField fn (structFields (typeOr v (TOther []))) (fieldsV v) 0 = Found fi ft (VSlice st xo)"
    and kind: "kindOf st = KSlice"
    and idx: "Atoi key = Inr (int n)"
  shows "processStep E ad v ModeSet val0 p True = sliceIndex E ad ModeSet True val0 v fi ft (VSlice st xo) n"
proof -
  have k: "key \<noteq> []" using idx by (auto simp: Atoi_def ParseInt_def)
  have kv: "kindV (VSlice st xo) = KSlice" using kind by (simp add: kindV_def)
  have e: "enterField E ad v ModeSet True fi ft (VSlice st xo) (Some key) val0
             = At (VSlice st xo) ad (VSlice st xo) v"
    by (simp add: enterField_def)
  show ?thesis
    by (simp add: processStep_def seg fnd e bracket_def indexOf_def kv k idx)
qed

lemma assignTo_same: "typeOf x = Some t \<Longrightarrow> kindOf t \<noteq> KInterface \<Longrightarrow> assignTo E x t = Done x"
  by (cases x) (simp_all add: assignTo_def assignable_def)

lemma setValue_exact:
  assumes "typeOf x = Some et" and "kindOf et \<noteq> KInterface" and "kindOf et \<noteq> KString"
    and "convertV E x et = Some x"
  shows "setValue E True et et x (\<lambda>y. assignTo E y et) = (Interface x, x, Some x, None)"
proof -
  have k: "kindV x \<noteq> KString" using assms(1,3) by (simp add: kindV_def)
  have c: "CanConvert E x et" "Convert E x et = x" using assms(4) by (simp_all add: CanConvert_def Convert_def)
  have a: "assignTo E x et = Done x" using assms(1,2) by (rule assignTo_same)
  show ?thesis
    by (simp add: setValue_def setValueBody_def assms(1,2) k c stored_def a)
qed

lemma grow_update: "(xs @ replicate (Suc k) d)[length xs + k := s] = xs @ replicate k d @ [s]"
proof -
  have a: "xs @ replicate (Suc k) d = (xs @ replicate k d) @ [d]"
    by (simp add: replicate_append_same)
  have b: "length xs + k = length (xs @ replicate k d)" by simp
  show ?thesis unfolding a b list_update_length by simp
qed

lemma slice_set_stored:
  assumes "isStructV v"
    and "segment p = (fn, Some key)"
    and "findField fn (structFields (typeOr v (TOther []))) (fieldsV v) 0 = Found fi ft (VSlice st xo)"
    and "kindOf st = KSlice"
    and "Atoi key = Inr (int n)"
    and "length (elemsOf (VSlice st xo)) \<le> n"
    and "NewWithDefaultsOf E (elemT st) = (d, None)"
    and "assignTo E d (elemT st) = Done d'"
    and "setValue E True (elemT st) (elemT st) val0 (\<lambda>x. assignTo E x (elemT st)) = (res, fv, Some s, None)"
  shows "process E True v ModeSet val0 [p] =
           (Ret (Interface s),
            putField v fi (VSlice st (Some (elemsOf (VSlice st xo)
               @ replicate (n - length (elemsOf (VSlice st xo))) d' @ [s]))))"
proof -
  let ?f = "VSlice st xo"
  let ?xs = "elemsOf ?f"
  let ?L = "length ?xs"
  from findField_Found [OF assms(3)] have ft: "ft = st" by (simp add: typeOr_def)
  have et: "elemT (typeOr ?f (TOther [])) = elemT st" by (simp add: typeOr_def)
  have he: "hasElem ft" using assms(4) ft by (simp add: hasElem_def)
  have g: "growLoop E ModeSet (elemT ft) (elemT st) (Len ?f) n 0 ?xs = Grown (?xs @ replicate (Suc n - ?L) d')"
    using growLoop_grow [OF _ assms(7,8), of ModeSet 0 n "Len ?f" ?xs] by (simp add: ft Len_def)
  have r: "Suc n - ?L = Suc (n - ?L)" using assms(6) by simp
  have u: "(?xs @ replicate (Suc n - ?L) d')[n := s] = ?xs @ replicate (n - ?L) d' @ [s]"
    using assms(6) grow_update [of ?xs "n - ?L" d' s] unfolding r by simp
  have nth: "(?xs @ replicate (n - ?L) d' @ [s]) ! n = s"
    using assms(6) by (simp add: nth_append)
  have w: "withElems ?f (?xs @ replicate (n - ?L) d' @ [s]) = VSlice st (Some (?xs @ replicate (n - ?L) d' @ [s]))"
    by simp
  have as: "assignTo E (VSlice st (Some (?xs @ replicate (n - ?L) d' @ [s]))) ft
              = Done (VSlice st (Some (?xs @ replicate (n - ?L) d' @ [s])))"
    using assms(4) ft by (simp add: assignTo_same)
  have sf: "sliceFinish E True True v fi ft ?f n (?xs @ replicate (n - ?L) d' @ [s])
             = Return (Ret (Interface s))
                 (putField v fi (VSlice st (Some (?xs @ replicate (n - ?L) d' @ [s]))))"
    unfolding sliceFinish_def w as using nth by simp
  have si: "sliceIndex E True ModeSet True val0 v fi ft ?f n
             = Return (Ret (Interface s))
                 (putField v fi (VSlice st (Some (?xs @ replicate (n - ?L) d' @ [s]))))"
    unfolding sliceIndex_def Let_def et g using he assms(9) u sf by simp
  show ?thesis
    by (simp add: process_struct [OF assms(1)] processStep_slice [OF assms(2,3,4,5)] si)
qed

text \<open>
  Claim C4, as amended.  \<open>Set\<close> reaches, as the last segment of the path, a slice field of an
  addressable record with the index \<open>n\<close>, at or beyond the length \<open>L\<close> of the slice (a nil
  slice has length 0); the initializer yields a default element \<open>d\<close>, stored in the
  slice as \<open>d'\<close>.  Whenever the coercion helper accepts the supplied value and stores it
  as \<open>s\<close>, the field holds the old elements, followed by \<open>n - L\<close> defaults, followed by
  \<open>s\<close>, which \<open>Set\<close> returns: \<open>n + 1\<close> elements.  When the supplied value has exactly the
  element type, is no text and converts to itself, that last element is the supplied
  value.  It is not in general: the helper parses a text and converts a number.
\<close>

theorem slice_growth:
  assumes "isStructV v"
    and "segment p = (fn, Some key)"
    and "findField fn (structFields (typeOr v (TOther []))) (fieldsV v) 0 = Found fi ft (VSlice st xo)"
    and "kindOf st = KSlice"
    and "Atoi key = Inr (int n)"
    and "length (elemsOf (VSlice st xo)) \<le> n"
    and "NewWithDefaultsOf E (elemT st) = (d, None)"
    and "assignTo E d (elemT st) = Done d'"
  shows "(\<forall>res fv s.
            setValue E True (elemT st) (elemT st) val0 (\<lambda>x. assignTo E x (elemT st)) = (res, fv, Some s, None)
            \<longrightarrow> process E True v ModeSet val0 [p] =
                  (Ret (Interface s),
                   putField v fi (VSlice st (Some (elemsOf (VSlice st xo)
                      @ replicate (n - length (elemsOf (VSlice st xo))) d' @ [s])))))
       \<and> (typeOf val0 = Some (elemT st) \<and> Interface val0 = val0
            \<and> kindOf (elemT st) \<noteq> KInterface \<and> kindOf (elemT st) \<noteq> KString
            \<and> convertV E val0 (elemT st) = Some val0
            \<longrightarrow> process E True v ModeSet val0 [p] =
                  (Ret val0,
                   putField v fi (VSlice st (Some (elemsOf (VSlice st xo)
                      @ replicate (n - length (elemsOf (VSlice st xo))) d' @ [val0])))))"
proof -
  note step = slice_set_stored [OF assms]
  have A: "process E True v ModeSet val0 [p] =
             (Ret (Interface s),
              putField v fi (VSlice st (Some (elemsOf (VSlice st xo)
                 @ replicate (n - length (elemsOf (VSlice st xo))) d' @ [s]))))"
    if "setValue E True (elemT st) (elemT st) val0 (\<lambda>x. assignTo E x (elemT st)) = (res, fv, Some s, None)"
    for res fv s
    using that by (rule step)
  have B: "process E True v ModeSet val0 [p] =
             (Ret val0,
              putField v fi (VSlice st (Some (elemsOf (VSlice st xo)
                 @ replicate (n - length (elemsOf (VSlice st xo))) d' @ [val0]))))"
    if "typeOf val0 = Some (elemT st)" "Interface val0 = val0"
       "kindOf (elemT st) \<noteq> KInterface" "kindOf (elemT st) \<noteq> KString"
       "convertV E val0 (elemT st) = Some val0"
    using step [OF setValue_exact [OF that(1,3,4,5)]] that(2) by simp
  from A B show ?thesis by blast
qed

theorem slice_growth_witness:
  "process plainEnv True (bagOf [1, 2, 3]) ModeSet (strV ''9'') [''items[5]'']
     = (Ret (intV 9), bagOf [1, 2, 3, 0, 0, 9])
   \<and> process plainEnv True (bagOf [1, 2, 3]) ModeSet (intV 9) [''items[5]'']
     = (Ret (intV 9), bagOf [1, 2, 3, 0, 0, 9])
   \<and> Set plainEnv (VPtr (TPtr bagT) (Some (bagOf [1, 2, 3]))) ''items[5]'' (intV 9)
     = (Ret (intV 9), VPtr (TPtr bagT) (Some (bagOf [1, 2, 3, 0, 0, 9])))"
proof -
  have s: "isStructV (bagOf [1, 2, 3])" by (simp add: bagOf_def)
  have sg: "segment ''items[5]'' = (''items'', Some ''5'')" by code_simp
  have f: "findField ''items'' (structFields (typeOr (bagOf [1, 2, 3]) (TOther []))) (fieldsV (bagOf [1, 2, 3])) 0
             = Found 0 (TSlice intT) (VSlice (TSlice intT) (Some (map intV [1, 2, 3])))"
    by code_simp
  have k: "kindOf (TSlice intT) = KSlice" by simp
  have a: "Atoi ''5'' = Inr (int 5)" by code_simp
  have l: "length (elemsOf (VSlice (TSlice intT) (Some (map intV [1, 2, 3])))) \<le> 5" by simp
  have d: "NewWithDefaultsOf plainEnv (elemT (TSlice intT)) = (intV 0, None)"
    by (simp add: plainEnv_def newDefault_def intT_def intV_def)
  have as: "assignTo plainEnv (intV 0) (elemT (TSlice intT)) = Done (intV 0)"
    by (simp add: assignTo_same intT_def intV_def)
  have sv: "setValue plainEnv True (elemT (TSlice intT)) (elemT (TSlice intT)) (strV ''9'')
              (\<lambda>x. assignTo plainEnv x (elemT (TSlice intT))) = (intV 9, intV 9, Some (intV 9), None)"
    by code_simp
  have ex: "typeOf (intV 9) = Some (elemT (TSlice intT)) \<and> Interface (intV 9) = intV 9
            \<and> kindOf (elemT (TSlice intT)) \<noteq> KInterface \<and> kindOf (elemT (TSlice intT)) \<noteq> KString
            \<and> convertV plainEnv (intV 9) (elemT (TSlice intT)) = Some (intV 9)"
    by code_simp
  note th = slice_growth [OF s sg f k a l d as, of "intV 9"]
  have A1: "process plainEnv True (bagOf [1, 2, 3]) ModeSet (strV ''9'') [''items[5]'']
             = (Ret (intV 9), bagOf [1, 2, 3, 0, 0, 9])"
    using slice_growth [OF s sg f k a l d as, of "strV ''9''"] sv
    by (simp add: putField_def bagOf_def intV_def numeral_eq_Suc)
  have A2: "process plainEnv True (bagOf [1, 2, 3]) ModeSet (intV 9) [''items[5]'']
             = (Ret (intV 9), bagOf [1, 2, 3, 0, 0, 9])"
    using conjunct2 [OF th] ex by (simp add: putField_def bagOf_def intV_def numeral_eq_Suc)
  have B: "Set plainEnv (VPtr (TPtr bagT) (Some (bagOf [1, 2, 3]))) ''items[5]'' (intV 9)
     = (Ret (intV 9), VPtr (TPtr bagT) (Some (bagOf [1, 2, 3, 0, 0, 9])))"
    by code_simp
  from A1 A2 B show ?thesis by simp
qed

text \<open>
  Claim C4 as stated fails for a value that the helper converts:
  \<open>Set(&bag8, "items[5]", 300)\<close> on \<open>Items []int8\<close> with three elements stores 300
  converted to \<open>int8\<close>, and the element at index 5 is 44, not the supplied value.
\<close>

theorem slice_growth_converted_counterexample:
  "Set plainEnv (VPtr (TPtr bag8T) (Some (bag8Of [1, 2, 3]))) ''items[5]'' (intV 300)
     = (Ret (VInt (TInt I8) 44), VPtr (TPtr bag8T) (Some (bag8Of [1, 2, 3, 0, 0, 44])))
   \<and> Get plainEnv (VPtr (TPtr bag8T) (Some (bag8Of [1, 2, 3, 0, 0, 44]))) ''items[5]''
     = (Ret (VInt (TInt I8) 44), VPtr (TPtr bag8T) (Some (bag8Of [1, 2, 3, 0, 0, 44])))
   \<and> VInt (TInt I8) 44 \<noteq> intV 300"
  by code_simp

section \<open>Set followed by Get\<close>



















lemma putField_length: "length (fieldsV (putField v fi a)) = length (fieldsV v)"
  by (cases v) (simp_all add: putField_def)




















end
